theory Spec2Isabelle
  imports Main "HOL-Library.Word"
begin

chapter \<open>The program\<close>

section \<open>Errors\<close>

text \<open>
  Go's \<open>error\<close> values that the dispatcher and the MTA-STS cache create or inspect.
  \<open>Errorf\<close> is an error made by \<open>fmt.Errorf\<close> or \<open>errors.New\<close> and carries its text;
  \<open>SMTPError\<close> is \<open>smtp.SMTPError\<close> with its code, enhanced code and message;
  \<open>ErrNoPolicy\<close> is the package variable of that name, compared by identity;
  \<open>DNSError\<close> is \<open>*net.DNSError\<close> with its \<open>IsTemporary\<close> field; \<open>FSError\<close> is an error of
  package os, with what \<open>os.IsNotExist\<close> answers for it; \<open>ExtError\<close> is any other error
  handed over by a check, a target or a library. \<open>Panic\<close> is no error value of Go: it
  stands for a run-time panic, after which the function returns nothing (here, the
  dereference of a \<open>nil\<close> pointer).
\<close>

datatype error =
    Errorf string
  | SMTPError nat "nat \<times> nat \<times> nat" string
  | ErrNoPolicy
  | DNSError bool
  | FSError bool
  | ExtError nat
  | Panic

text \<open>
  The method \<open>Error()\<close>. The program calls it on the error of \<open>splitAddress\<close> only; for the
  errors of other packages it gives a text that stands for theirs.
\<close>

fun Error :: "error \<Rightarrow> string" where
  "Error (Errorf s) = s"
| "Error (SMTPError c e m) = m"
| "Error ErrNoPolicy = ''mtasts: no MTA-STS policy found''"
| "Error (DNSError t) = ''lookup: dns error''"
| "Error (FSError n) = ''file system error''"
| "Error (ExtError n) = ''error''"
| "Error Panic = ''panic''"

section \<open>Strings\<close>

text \<open>
  A Go string is a sequence of bytes, here a \<open>char list\<close>. \<open>Split\<close> is
  \<open>strings.Split\<close> for a separator of one byte: it cuts at every occurrence of the
  separator, so the result has one more element than the string has separators.
\<close>

function Split :: "string \<Rightarrow> char \<Rightarrow> string list" where
  "Split s sep =
     (if sep \<in> set s
      then takeWhile (\<lambda>c. c \<noteq> sep) s # Split (tl (dropWhile (\<lambda>c. c \<noteq> sep) s)) sep
      else [s])"
  by pat_completeness auto
termination
proof (relation "measure (\<lambda>(s, sep). length s)")
  show "wf (measure (\<lambda>(s, sep). length s))" by simp
next
  fix s :: string and sep :: char
  assume "sep \<in> set s"
  then have "dropWhile (\<lambda>c. c \<noteq> sep) s \<noteq> []" by simp
  then have "length (tl (dropWhile (\<lambda>c. c \<noteq> sep) s)) < length (dropWhile (\<lambda>c. c \<noteq> sep) s)"
    by (cases "dropWhile (\<lambda>c. c \<noteq> sep) s") simp_all
  also have "\<dots> \<le> length s" by (rule length_dropWhile_le)
  finally show "((tl (dropWhile (\<lambda>c. c \<noteq> sep) s), sep), (s, sep)) \<in> measure (\<lambda>(s, sep). length s)"
    by simp
qed

declare Split.simps [simp del]

subsection \<open>UTF-8 decoding and case folding\<close>

text \<open>
  \<open>strings.EqualFold\<close> compares rune by rune. A rune is a code point, here a \<open>nat\<close>.
  \<open>DecodeRuneInString\<close> is the function of package \<open>unicode/utf8\<close>: it returns the first
  rune of the string and the number of bytes read, and \<open>RuneError\<close> with width 1 for a
  byte sequence that is not valid UTF-8 (width 0 for the empty string). The tables
  \<open>first\<close> and \<open>acceptRanges\<close> of the package are written out as comparisons.
\<close>

definition RuneError :: nat where
  "RuneError = 65533"

definition RuneSelf :: nat where
  "RuneSelf = 128"

definition byte :: "char \<Rightarrow> nat" where
  "byte c = of_char c"

fun DecodeRuneInString :: "string \<Rightarrow> nat \<times> nat" where
  "DecodeRuneInString [] = (RuneError, 0)"
| "DecodeRuneInString (c0 # cs) =
     (let s0 = byte c0 in
      if s0 < RuneSelf then (s0, 1)
      else if s0 < 194 \<or> 244 < s0 then (RuneError, 1)
      else
        let sz = (if s0 < 224 then 2 else if s0 < 240 then 3 else 4 :: nat);
            lo = (if s0 = 224 then 160 else if s0 = 240 then 144 else 128 :: nat);
            hi = (if s0 = 237 then 159 else if s0 = 244 then 143 else 191 :: nat)
        in
          if length (c0 # cs) < sz then (RuneError, 1)
          else
            let s1 = byte (cs ! 0) in
            if s1 < lo \<or> hi < s1 then (RuneError, 1)
            else if sz \<le> 2 then ((s0 mod 32) * 64 + s1 mod 64, 2)
            else
              let s2 = byte (cs ! 1) in
              if s2 < 128 \<or> 191 < s2 then (RuneError, 1)
              else if sz \<le> 3 then ((s0 mod 16) * 4096 + (s1 mod 64) * 64 + s2 mod 64, 3)
              else
                let s3 = byte (cs ! 2) in
                if s3 < 128 \<or> 191 < s3 then (RuneError, 1)
                else ((s0 mod 8) * 262144 + (s1 mod 64) * 4096 + (s2 mod 64) * 64
                        + s3 mod 64, 4))"

text \<open>
  \<open>unicode.SimpleFold\<close> walks the orbit of runes that are equal under simple case
  folding: it returns the next larger rune of the orbit, or the smallest one after the
  largest. The orbits that hold an ASCII letter are given in full: \<open>K k\<close> and the Kelvin
  sign U+212A, \<open>S s\<close> and the long s U+017F, and upper and lower case of the other
  letters. They decide every comparison in which one of the two runes is ASCII, which is
  the case whenever one argument of \<open>EqualFold\<close> is an ASCII string, as at its one call
  in \<open>splitAddress\<close>. The orbits of the other runes are in the tables of package unicode;
  here such a rune folds to itself.
\<close>

definition SimpleFold :: "nat \<Rightarrow> nat" where
  "SimpleFold r =
     (if 65 \<le> r \<and> r \<le> 90 then r + 32
      else if r = 107 then 8490
      else if r = 115 then 383
      else if 97 \<le> r \<and> r \<le> 122 then r - 32
      else if r = 8490 then 75
      else if r = 383 then 83
      else r)"

text \<open>
  The loop \<open>for r != sr && r < tr { r = unicode.SimpleFold(r) }\<close> of \<open>EqualFold\<close>, with
  fuel: an orbit has at most four runes, so the loop body runs at most three times.
\<close>

fun foldWalk :: "nat \<Rightarrow> nat \<Rightarrow> nat \<Rightarrow> nat \<Rightarrow> nat option" where
  "foldWalk 0 sr tr r = (if r \<noteq> sr \<and> r < tr then None else Some r)"
| "foldWalk (Suc n) sr tr r =
     (if r \<noteq> sr \<and> r < tr then foldWalk n sr tr (SimpleFold r) else Some r)"

text \<open>The first rune of a non-empty string and the rest, as \<open>EqualFold\<close> extracts them.\<close>

definition nextRune :: "string \<Rightarrow> nat \<times> string" where
  "nextRune s =
     (if byte (hd s) < RuneSelf then (byte (hd s), tl s)
      else (fst (DecodeRuneInString s), drop (snd (DecodeRuneInString s)) s))"

function EqualFold :: "string \<Rightarrow> string \<Rightarrow> bool" where
  "EqualFold s t =
     (if s \<noteq> [] \<and> t \<noteq> [] then
        (let sr0 = fst (nextRune s); s' = snd (nextRune s);
             tr0 = fst (nextRune t); t' = snd (nextRune t)
         in if tr0 = sr0 then EqualFold s' t'
            else
              let sr = min sr0 tr0; tr = max sr0 tr0 in
              if tr < RuneSelf then
                (if 65 \<le> sr \<and> sr \<le> 90 \<and> tr = sr + 32 then EqualFold s' t' else False)
              else if foldWalk 3 sr tr (SimpleFold sr) = Some tr then EqualFold s' t'
              else False)
      else s = t)"
  by pat_completeness auto
termination
proof -
  have size: "0 < snd (DecodeRuneInString s)" if "s \<noteq> []" for s
    using that by (cases s) (simp_all add: Let_def)
  have shorter: "length (snd (nextRune s)) < length s" if "s \<noteq> []" for s
    using that size [of s] by (cases s) (auto simp: nextRune_def)
  show ?thesis
    by (relation "measure (\<lambda>(s, t). length s)") (auto simp: shorter)
qed

declare EqualFold.simps [simp del]

section \<open>The address matcher\<close>

text \<open>
  \<open>splitAddress\<close> returns \<open>Inl\<close> of the error, or \<open>Inr\<close> of mailbox and domain.
\<close>

definition splitAddress :: "string \<Rightarrow> error + string \<times> string" where
  "splitAddress addr =
     (let parts = Split addr CHR ''@'' in
      if length parts = 1 then
        (if EqualFold (parts ! 0) ''postmaster'' then Inr (parts ! 0, '''')
         else Inl (Errorf ''malformed address''))
      else if length parts = 2 then
        (if length (parts ! 0) = 0 \<or> length (parts ! 1) = 0
         then Inl (Errorf ''malformed address'')
         else Inr (parts ! 0, parts ! 1))
      else Inl (Errorf ''malformed address''))"

section \<open>The dispatcher\<close>

subsection \<open>Data\<close>

text \<open>
  Check groups, check states, delivery targets and deliveries are objects of other
  packages. The dispatcher only calls them and uses them as map keys, so each is
  represented by its identity, a number. An \<open>authres.Result\<close> is kept as its text.
\<close>

type_synonym checkGroup = nat

type_synonym checkState = nat

type_synonym target = nat

type_synonym delivery = nat

type_synonym authres = string

text \<open>
  Modelled from the spec: \<open>module.CheckResult\<close>, whose declaration is not among the
  sources. "Each check call returns a CheckResult: RejectErr: if set, the message is
  rejected now with that error. Quarantine: boolean. ScoreAdjust: signed integer added to
  the running score. AuthResult: list of authentication-results records. Header:
  additional header fields." These are the fields that \<open>checkResult\<close> reads. The field
  \<open>Quarantine\<close> is \<open>cr_Quarantine\<close> here, since \<open>MsgMetadata\<close> has a field of the same name.
  \<open>ScoreAdjust\<close> is an \<open>int32\<close>, as the score it is added to. \<open>Header\<close> is a
  \<open>textproto.Header\<close>: the fields from top to bottom, as \<open>Fields()\<close> visits them.
\<close>

record CheckResult =
  RejectErr :: "error option"
  cr_Quarantine :: bool
  ScoreAdjust :: "32 word"
  AuthResult :: "authres list"
  Header :: "(string \<times> string) list"

text \<open>
  Modelled from the spec: \<open>module.MsgMetadata\<close>, whose declaration is not among the
  sources. "Message metadata: an opaque identifier MsgID, ..., a Quarantine flag". The
  dispatcher and its logger read and write these two fields only.
\<close>

record MsgMetadata =
  ID :: string
  Quarantine :: bool

text \<open>
  The two kinds of block. Their fields \<open>checks\<close> and \<open>rejectErr\<close> are \<open>rcpt_checks\<close>,
  \<open>rcpt_rejectErr\<close>, \<open>src_checks\<close> and \<open>src_rejectErr\<close> here: a field name belongs to one
  record. A \<open>*rcptBlock\<close> is \<open>nil\<close> or an address with the block it points to. The
  blocks are never written after the configuration is read.
\<close>

record rcptBlock =
  rcpt_checks :: checkGroup
  rcpt_rejectErr :: "error option"
  targets :: "target list"

datatype rcptBlock_ptr = nil | Ptr nat rcptBlock

record sourceBlock =
  src_checks :: checkGroup
  src_rejectErr :: "error option"
  perRcpt :: "string \<rightharpoonup> rcptBlock_ptr"
  defaultRcpt :: rcptBlock_ptr

text \<open>
  The logger of package log. A \<open>FuncLog\<close> is a function value: \<open>nil\<close>, an output (a number
  stands for it), or the closure that \<open>deliveryLogger\<close> returns, which holds the \<open>Out\<close> of
  the logger it wraps and the metadata whose ID it appends. \<open>Debug\<close> is false throughout,
  as \<open>NewDispatcher\<close> leaves it: \<open>Debugf\<close> then returns at its first statement, so the
  calls of \<open>Debugf\<close> are left out of the functions below, and so is the field.
\<close>

datatype FuncLog = nilFunc | Output nat | Closure FuncLog string

record Logger =
  Out :: FuncLog
  Name :: string

text \<open>
  A call of a \<open>FuncLog\<close>: \<open>True\<close> when the call returns, \<open>False\<close> when it panics. The
  call of a \<open>nil\<close> function panics; the closure of \<open>deliveryLogger\<close> calls \<open>l.Out\<close> without
  a test. What an output writes is not modelled.
\<close>

fun calls :: "FuncLog \<Rightarrow> bool" where
  "calls nilFunc = False"
| "calls (Output n) = True"
| "calls (Closure out ident) = calls out"

text \<open>
  \<open>Logger.Printf\<close>, that is \<open>Logger.log\<close>: it calls \<open>l.Out\<close> when that is not \<open>nil\<close>, and
  \<open>DefaultLogger.Out\<close> otherwise, which is the output to standard error. \<open>True\<close> when
  the call returns.
\<close>

definition Printf :: "Logger \<Rightarrow> bool" where
  "Printf l = (if Out l \<noteq> nilFunc then calls (Out l) else True)"

text \<open>
  \<open>Dispatcher\<close>: its logger \<open>Log\<close>, \<open>hostname\<close> and the fields of the embedded
  \<open>dispatcherCfg\<close> that the dispatcher uses.

  Modelled from the spec: the fields of \<open>dispatcherCfg\<close>, whose declaration is not among
  the sources. "Source blocks: mapping from normalized address or domain (lowercased) to
  a SourceBlock. One defaultSource exists for unmatched senders." "Check scores: global
  rejectScore and quarantineScore thresholds (each an optional signed integer)." The
  thresholds are pointers in \<open>checkResult\<close>, which converts what they point to to \<open>int32\<close>;
  here they are integers without a bound.
\<close>

record Dispatcher =
  globalChecks :: checkGroup
  perSource :: "string \<rightharpoonup> sourceBlock"
  defaultSource :: sourceBlock
  rejectScore :: "int option"
  quarantineScore :: "int option"
  hostname :: string
  Log :: Logger

text \<open>
  \<open>deliveryLogger\<close> (stateless_check.go): the logger whose \<open>Out\<close> is a closure that calls
  \<open>l.Out\<close> with the message ID appended to the text.
\<close>

definition deliveryLogger :: "Logger \<Rightarrow> MsgMetadata \<Rightarrow> Logger" where
  "deliveryLogger l meta = \<lparr>Out = Closure (Out l) (ID meta), Name = Name l\<rparr>"

text \<open>
  \<open>dispatcherDelivery\<close>, without its context. Its logger \<open>dd.log\<close> is
  \<open>deliveryLogger (Log d) (msgMeta dd)\<close>, as \<open>Start\<close> sets it at line 70, and is written so
  where it is used. \<open>msgMeta\<close> holds the metadata
  that the pointer of the same name refers to; \<open>rcptChecksState\<close> is keyed by the address
  of the recipient block; \<open>header\<close> lists the fields from top to bottom. A check state that
  is not set yet is the \<open>nil\<close> interface, \<open>None\<close>.
\<close>

record dispatcherDelivery =
  globalChecksState :: "checkState option"
  sourceChecksState :: "checkState option"
  rcptChecksState :: "nat \<rightharpoonup> checkState"
  sourceAddr :: string
  sourceBlock :: sourceBlock
  deliveries :: "target \<rightharpoonup> delivery"
  msgMeta :: MsgMetadata
  checkScore :: "32 word"
  authRes :: "authres list"
  header :: "(string \<times> string) list"

subsection \<open>The world outside\<close>

text \<open>
  Every call that leaves the dispatcher is written to a log, with what it returned where
  the dispatcher looks at it. The answers of the objects called are functions of the log
  so far and of the arguments: an object may answer differently each time.
  \<open>ToLower\<close> is \<open>strings.ToLower\<close>, which needs the case tables of package unicode; the
  dispatcher only uses its result as a map key.
\<close>

datatype stage = Connection | Sender string | Rcpt string

datatype event =
    NewMessage checkGroup "error + checkState"
  | Check checkState stage
  | Close checkState
  | TargetStart target string "error + delivery"
  | DeliveryAddRcpt delivery string "error option"
  | DeliveryCommit delivery "error option"
  | DeliveryAbort delivery "error option"

record extern =
  ToLower :: "string \<Rightarrow> string"
  newMessage :: "event list \<Rightarrow> checkGroup \<Rightarrow> error + checkState"
  check :: "event list \<Rightarrow> checkState \<Rightarrow> stage \<Rightarrow> CheckResult"
  targetStart :: "event list \<Rightarrow> target \<Rightarrow> string \<Rightarrow> error + delivery"
  deliveryAddRcpt :: "event list \<Rightarrow> delivery \<Rightarrow> string \<Rightarrow> error option"
  deliveryCommit :: "event list \<Rightarrow> delivery \<Rightarrow> error option"
  deliveryAbort :: "event list \<Rightarrow> delivery \<Rightarrow> error option"

subsection \<open>Formatting\<close>

text \<open>The verb \<open>%d\<close> of \<open>fmt.Sprintf\<close>: a signed decimal number.\<close>

function natDigits :: "nat \<Rightarrow> string" where
  "natDigits n =
     (if n < 10 then [char_of (48 + n)] else natDigits (n div 10) @ [char_of (48 + n mod 10)])"
  by pat_completeness auto
termination
  by (relation "measure id") auto

declare natDigits.simps [simp del]

definition Itoa :: "int \<Rightarrow> string" where
  "Itoa i = (if i < 0 then CHR ''-'' # natDigits (nat (- i)) else natDigits (nat i))"

text \<open>
  \<open>textproto.Header.Add\<close> puts the new field on top of the header.
\<close>

definition Add :: "string \<Rightarrow> string \<Rightarrow> (string \<times> string) list \<Rightarrow> (string \<times> string) list" where
  "Add k v h = (k, v) # h"

subsection \<open>\<open>checkResult\<close>\<close>

text \<open>
  The method changes \<open>dd\<close> in place and returns an error or \<open>nil\<close>; here it returns the
  error and the new \<open>dd\<close>. The score is an \<open>int32\<close>: \<open>+\<close> wraps around, and the comparison
  is the signed one. \<open>int32(*dd.d.rejectScore)\<close> keeps the low 32 bits of the threshold.

  Before each of its two assignments to \<open>msgMeta.Quarantine\<close> the method calls
  \<open>dd.log.Printf\<close>: at line 318 whenever the check result asks for quarantine, at line 332
  when the score has reached \<open>quarantineScore\<close> and the flag is not set yet. When that call
  panics the method returns nothing: the result is \<open>Panic\<close>, with \<open>dd\<close> as it is at that
  line, the flag not yet written.
\<close>

definition int32 :: "int \<Rightarrow> 32 word" where
  "int32 i = word_of_int i"

definition scoreReached :: "int option \<Rightarrow> 32 word \<Rightarrow> bool" where
  "scoreReached threshold score =
     (case threshold of None \<Rightarrow> False | Some t \<Rightarrow> sint (int32 t) \<le> sint score)"

definition checkResult ::
  "Dispatcher \<Rightarrow> dispatcherDelivery \<Rightarrow> CheckResult \<Rightarrow> error option \<times> dispatcherDelivery" where
  "checkResult d dd cr =
     (case RejectErr cr of
        Some e \<Rightarrow> (Some e, dd)
      | None \<Rightarrow>
          if cr_Quarantine cr \<and> \<not> Printf (deliveryLogger (Log d) (msgMeta dd))
          then (Some Panic, dd)
          else
            let dd1 = (if cr_Quarantine cr
                       then dd\<lparr>msgMeta := (msgMeta dd)\<lparr>Quarantine := True\<rparr>\<rparr> else dd);
                dd2 = dd1\<lparr>checkScore := checkScore dd1 + ScoreAdjust cr\<rparr>
            in
              if scoreReached (rejectScore d) (checkScore dd2) then
                (Some (SMTPError 550 (5, 7, 0)
                   (''Message is rejected due to multiple local policy violations (score ''
                      @ Itoa (sint (checkScore dd2)) @ '')'')), dd2)
              else if scoreReached (quarantineScore d) (checkScore dd2)
                      \<and> \<not> Quarantine (msgMeta dd2)
                      \<and> \<not> Printf (deliveryLogger (Log d) (msgMeta dd2))
              then (Some Panic, dd2)
              else
                let dd3 = (if scoreReached (quarantineScore d) (checkScore dd2)
                           then dd2\<lparr>msgMeta := (msgMeta dd2)\<lparr>Quarantine := True\<rparr>\<rparr> else dd2);
                    dd4 = (if length (AuthResult cr) \<noteq> 0
                           then dd3\<lparr>authRes := authRes dd3 @ AuthResult cr\<rparr> else dd3);
                    dd5 = dd4\<lparr>header := foldl (\<lambda>h (k, v). Add k v h) (header dd4) (Header cr)\<rparr>
                in (None, dd5))"

text \<open>
  \<open>dd.checkResult(state.CheckConnection(...))\<close> and its like: the check is called, the call
  is logged, and its result goes through \<open>checkResult\<close>.
\<close>

definition runCheck ::
  "Dispatcher \<Rightarrow> extern \<Rightarrow> checkState \<Rightarrow> stage \<Rightarrow> dispatcherDelivery \<Rightarrow> event list
     \<Rightarrow> error option \<times> dispatcherDelivery \<times> event list" where
  "runCheck d x st sg dd tr =
     (case checkResult d dd (check x tr st sg) of
        (err, dd') \<Rightarrow> (err, dd', tr @ [Check st sg]))"

subsection \<open>\<open>Dispatcher.Start\<close>\<close>

text \<open>
  The block of a sender (lines 100 to 123 of the dispatcher): the rule for the whole
  address, then the rule for its domain, then the default block. An address that has no
  rule of its own and that \<open>splitAddress\<close> refuses ends \<open>Start\<close> with the error 501.
\<close>

definition matchSource :: "Dispatcher \<Rightarrow> extern \<Rightarrow> string \<Rightarrow> error + sourceBlock" where
  "matchSource d x mailFrom =
     (case perSource d (ToLower x mailFrom) of
        Some b \<Rightarrow> Inr b
      | None \<Rightarrow>
          (case splitAddress mailFrom of
             Inl err \<Rightarrow>
               Inl (SMTPError 501 (5, 1, 3) (''Invalid sender address: '' @ Error err))
           | Inr (mailbox, domain) \<Rightarrow>
               (case perSource d (ToLower x domain) of
                  Some b \<Rightarrow> Inr b
                | None \<Rightarrow> Inr (defaultSource d))))"

text \<open>
  The two deferred functions of \<open>Start\<close> close a check state when the variable \<open>err\<close> of
  the function body is not \<open>nil\<close> at the return. \<open>deferred err sts\<close> runs them: \<open>sts\<close> are
  the states whose \<open>defer\<close> statement has been executed, the last one first.
\<close>

definition deferred :: "error option \<Rightarrow> checkState list \<Rightarrow> event list \<Rightarrow> event list" where
  "deferred err sts tr = (if err \<noteq> None then tr @ map Close sts else tr)"

text \<open>The zero value of \<open>sourceBlock\<close>, which \<open>dd.sourceBlock\<close> holds until it is assigned.\<close>

definition zeroSourceBlock :: sourceBlock where
  "zeroSourceBlock =
     \<lparr>src_checks = 0, src_rejectErr = None, perRcpt = Map.empty, defaultRcpt = nil\<rparr>"

definition newDelivery :: "MsgMetadata \<Rightarrow> dispatcherDelivery" where
  "newDelivery meta =
     \<lparr>globalChecksState = None, sourceChecksState = None, rcptChecksState = Map.empty,
      sourceAddr = [], sourceBlock = zeroSourceBlock, deliveries = Map.empty,
      msgMeta = meta, checkScore = 0, authRes = [], header = []\<rparr>"

text \<open>
  The second half of \<open>Start\<close>, from line 125, for the source block \<open>sb\<close> that was matched;
  \<open>gs\<close> is the global check state. The variable \<open>err\<close> of the function body is assigned
  at line 131 only: the \<open>err\<close> of each \<open>if err := ...\<close> is a variable of that statement.
  So \<open>err\<close> is \<open>nil\<close> at every return but the one of line 133.
\<close>

definition startSource ::
  "Dispatcher \<Rightarrow> extern \<Rightarrow> string \<Rightarrow> checkState \<Rightarrow> sourceBlock \<Rightarrow> dispatcherDelivery
     \<Rightarrow> event list \<Rightarrow> (error + dispatcherDelivery) \<times> event list" where
  "startSource d x mailFrom gs sb dd tr =
     (case src_rejectErr sb of
        Some e \<Rightarrow> (Inl e, deferred None [gs] tr)
      | None \<Rightarrow>
          let dd1 = dd\<lparr>sourceBlock := sb\<rparr> in
          (case newMessage x tr (src_checks sb) of
             Inl e \<Rightarrow>
               (Inl e, deferred (Some e) [gs] (tr @ [NewMessage (src_checks sb) (Inl e)]))
           | Inr ss \<Rightarrow>
               (case runCheck d x ss Connection dd1
                       (tr @ [NewMessage (src_checks sb) (Inr ss)]) of
                  (Some e, dd2, tr2) \<Rightarrow> (Inl e, deferred None [ss, gs] tr2)
                | (None, dd2, tr2) \<Rightarrow>
                    (case runCheck d x ss (Sender mailFrom) dd2 tr2 of
                       (Some e, dd3, tr3) \<Rightarrow> (Inl e, deferred None [ss, gs] tr3)
                     | (None, dd3, tr3) \<Rightarrow>
                         (Inr (dd3\<lparr>sourceChecksState := Some ss, sourceAddr := mailFrom\<rparr>),
                          deferred None [ss, gs] tr3)))))"

text \<open>
  The first part of \<open>Start\<close>, lines 70 to 96: the global check state is opened and
  \<open>CheckConnection\<close> and \<open>CheckSender\<close> run on it. It ends \<open>Start\<close> with an error, or goes
  on with the global check state and \<open>dd\<close>.
\<close>

definition startGlobal ::
  "Dispatcher \<Rightarrow> extern \<Rightarrow> MsgMetadata \<Rightarrow> string \<Rightarrow> event list
     \<Rightarrow> (error + checkState \<times> dispatcherDelivery) \<times> event list" where
  "startGlobal d x meta mailFrom tr =
     (case newMessage x tr (globalChecks d) of
        Inl e \<Rightarrow> (Inl e, tr @ [NewMessage (globalChecks d) (Inl e)])
      | Inr gs \<Rightarrow>
          (case runCheck d x gs Connection (newDelivery meta)
                  (tr @ [NewMessage (globalChecks d) (Inr gs)]) of
             (Some e, dd1, tr1) \<Rightarrow> (Inl e, deferred None [gs] tr1)
           | (None, dd1, tr1) \<Rightarrow>
               (case runCheck d x gs (Sender mailFrom) dd1 tr1 of
                  (Some e, dd2, tr2) \<Rightarrow> (Inl e, deferred None [gs] tr2)
                | (None, dd2, tr2) \<Rightarrow>
                    (Inr (gs, dd2\<lparr>globalChecksState := Some gs\<rparr>), tr2))))"

text \<open>
  \<open>Start\<close> returns the delivery or the error, and the log. The metadata is \<open>meta\<close>; the log
  so far is \<open>tr\<close>. The return of line 106, for an address that is refused, leaves
  \<open>err\<close> of the function body \<open>nil\<close> as well: its \<open>err\<close> is declared in the block of the
  \<open>if\<close>.
\<close>

definition Start ::
  "Dispatcher \<Rightarrow> extern \<Rightarrow> MsgMetadata \<Rightarrow> string \<Rightarrow> event list
     \<Rightarrow> (error + dispatcherDelivery) \<times> event list" where
  "Start d x meta mailFrom tr =
     (case startGlobal d x meta mailFrom tr of
        (Inl e, tr1) \<Rightarrow> (Inl e, tr1)
      | (Inr (gs, dd), tr1) \<Rightarrow>
          (case matchSource d x mailFrom of
             Inl e \<Rightarrow> (Inl e, deferred None [gs] tr1)
           | Inr sb \<Rightarrow> startSource d x mailFrom gs sb dd tr1))"

subsection \<open>\<open>dispatcherDelivery.AddRcpt\<close>\<close>

text \<open>The block of a recipient (lines 175 to 198), in the source block of the sender.\<close>

definition matchRcpt :: "extern \<Rightarrow> sourceBlock \<Rightarrow> string \<Rightarrow> error + rcptBlock_ptr" where
  "matchRcpt x sb to =
     (case perRcpt sb (ToLower x to) of
        Some b \<Rightarrow> Inr b
      | None \<Rightarrow>
          (case splitAddress to of
             Inl err \<Rightarrow>
               Inl (SMTPError 501 (5, 1, 3) (''Invalid recipient address: '' @ Error err))
           | Inr (mailbox, domain) \<Rightarrow>
               (case perRcpt sb (ToLower x domain) of
                  Some b \<Rightarrow> Inr b
                | None \<Rightarrow> Inr (defaultRcpt sb))))"

text \<open>
  The loop over the targets of the recipient block (lines 228 to 250): the delivery of a
  target is taken from \<open>dd.deliveries\<close>, or started and stored there, and the recipient is
  added to it.
\<close>

fun addRcptTargets ::
  "extern \<Rightarrow> string \<Rightarrow> target list \<Rightarrow> dispatcherDelivery \<Rightarrow> event list
     \<Rightarrow> error option \<times> dispatcherDelivery \<times> event list" where
  "addRcptTargets x to [] dd tr = (None, dd, tr)"
| "addRcptTargets x to (t # ts) dd tr =
     (case deliveries dd t of
        Some dl \<Rightarrow>
          (case deliveryAddRcpt x tr dl to of
             Some e \<Rightarrow> (Some e, dd, tr @ [DeliveryAddRcpt dl to (Some e)])
           | None \<Rightarrow> addRcptTargets x to ts dd (tr @ [DeliveryAddRcpt dl to None]))
      | None \<Rightarrow>
          (case targetStart x tr t (sourceAddr dd) of
             Inl e \<Rightarrow> (Some e, dd, tr @ [TargetStart t (sourceAddr dd) (Inl e)])
           | Inr dl \<Rightarrow>
               let tr1 = tr @ [TargetStart t (sourceAddr dd) (Inr dl)];
                   dd1 = dd\<lparr>deliveries := (deliveries dd)(t \<mapsto> dl)\<rparr>
               in
                 (case deliveryAddRcpt x tr1 dl to of
                    Some e \<Rightarrow> (Some e, dd1, tr1 @ [DeliveryAddRcpt dl to (Some e)])
                  | None \<Rightarrow> addRcptTargets x to ts dd1 (tr1 @ [DeliveryAddRcpt dl to None]))))"

text \<open>
  Lines 222 to 252: \<open>CheckRcpt\<close> on the check state of the recipient block, then the
  targets.
\<close>

definition addRcptChecked ::
  "Dispatcher \<Rightarrow> extern \<Rightarrow> string \<Rightarrow> rcptBlock \<Rightarrow> checkState \<Rightarrow> dispatcherDelivery
     \<Rightarrow> event list \<Rightarrow> error option \<times> dispatcherDelivery \<times> event list" where
  "addRcptChecked d x to rb st dd tr =
     (case runCheck d x st (Rcpt to) dd tr of
        (Some e, dd1, tr1) \<Rightarrow> (Some e, dd1, tr1)
      | (None, dd1, tr1) \<Rightarrow> addRcptTargets x to (targets rb) dd1 tr1)"

text \<open>
  \<open>AddRcpt\<close> changes \<open>dd\<close> in place also when it returns an error, so it returns the error
  or \<open>nil\<close>, the new \<open>dd\<close> and the log.
\<close>

definition AddRcpt ::
  "Dispatcher \<Rightarrow> extern \<Rightarrow> dispatcherDelivery \<Rightarrow> string \<Rightarrow> event list
     \<Rightarrow> error option \<times> dispatcherDelivery \<times> event list" where
  "AddRcpt d x dd to tr =
     (case matchRcpt x (sourceBlock dd) to of
        Inl e \<Rightarrow> (Some e, dd, tr)
      | Inr nil \<Rightarrow> (Some Panic, dd, tr)
      | Inr (Ptr a rb) \<Rightarrow>
          (case rcpt_rejectErr rb of
             Some e \<Rightarrow> (Some e, dd, tr)
           | None \<Rightarrow>
               (case rcptChecksState dd a of
                  Some st \<Rightarrow> addRcptChecked d x to rb st dd tr
                | None \<Rightarrow>
                    (case newMessage x tr (rcpt_checks rb) of
                       Inl e \<Rightarrow> (Some e, dd, tr @ [NewMessage (rcpt_checks rb) (Inl e)])
                     | Inr st \<Rightarrow>
                         (case runCheck d x st Connection dd
                                 (tr @ [NewMessage (rcpt_checks rb) (Inr st)]) of
                            (Some e, dd1, tr1) \<Rightarrow> (Some e, dd1, tr1)
                          | (None, dd1, tr1) \<Rightarrow>
                              (case runCheck d x st (Sender (sourceAddr dd1)) dd1 tr1 of
                                 (Some e, dd2, tr2) \<Rightarrow> (Some e, dd2, tr2)
                               | (None, dd2, tr2) \<Rightarrow>
                                   addRcptChecked d x to rb st
                                     (dd2\<lparr>rcptChecksState := (rcptChecksState dd2)(a \<mapsto> st)\<rparr>)
                                     tr2))))))"

subsection \<open>\<open>Commit\<close> and \<open>Abort\<close>\<close>

text \<open>
  Both range over the map \<open>dd.deliveries\<close>. Go visits the entries of a map in an order of
  its choice: \<open>order\<close> is the order in which the keys are visited, and \<open>opened\<close> the
  deliveries in that order.
\<close>

definition opened :: "dispatcherDelivery \<Rightarrow> target list \<Rightarrow> delivery list" where
  "opened dd order = List.map_filter (deliveries dd) order"

fun commitLoop :: "extern \<Rightarrow> delivery list \<Rightarrow> event list \<Rightarrow> error option \<times> event list" where
  "commitLoop x [] tr = (None, tr)"
| "commitLoop x (dl # dls) tr =
     (case deliveryCommit x tr dl of
        Some e \<Rightarrow> (Some e, tr @ [DeliveryCommit dl (Some e)])
      | None \<Rightarrow> commitLoop x dls (tr @ [DeliveryCommit dl None]))"

definition Commit ::
  "extern \<Rightarrow> dispatcherDelivery \<Rightarrow> target list \<Rightarrow> event list \<Rightarrow> error option \<times> event list" where
  "Commit x dd order tr = commitLoop x (opened dd order) tr"

fun abortLoop ::
  "extern \<Rightarrow> delivery list \<Rightarrow> error option \<Rightarrow> event list \<Rightarrow> error option \<times> event list" where
  "abortLoop x [] lastErr tr = (lastErr, tr)"
| "abortLoop x (dl # dls) lastErr tr =
     (case deliveryAbort x tr dl of
        Some e \<Rightarrow> abortLoop x dls (Some e) (tr @ [DeliveryAbort dl (Some e)])
      | None \<Rightarrow> abortLoop x dls lastErr (tr @ [DeliveryAbort dl None]))"

definition Abort ::
  "extern \<Rightarrow> dispatcherDelivery \<Rightarrow> target list \<Rightarrow> event list \<Rightarrow> error option \<times> event list" where
  "Abort x dd order tr = abortLoop x (opened dd order) None tr"

section \<open>The MTA-STS cache\<close>

subsection \<open>Data and the world outside\<close>

text \<open>
  Modelled from the spec: the type \<open>Policy\<close>, whose declaration is not among the sources.
  "Policy has Mode in {enforce, testing, none}, MaxAge (seconds), and a set of MX
  patterns."
\<close>

datatype mode = enforce | testing | none

record Policy =
  Mode :: mode
  MaxAge :: int
  MX :: "string list"

text \<open>
  A time is a number of nanoseconds. \<open>time.Duration(n) * time.Second\<close> is a product of
  \<open>int64\<close>, which wraps around.
\<close>

definition seconds :: "int \<Rightarrow> int" where
  "seconds n = sint (word_of_int n * 1000000000 :: 64 word)"

text \<open>What the cache reads of an HTTP response.\<close>

record response =
  StatusCode :: int
  Status :: string
  ContentType :: string
  Body :: string

text \<open>
  The file system, the clock, the resolver and the web, and the functions \<open>readDNSRecord\<close>
  and \<open>readPolicy\<close> of the package, which are not among the sources. A file that is open
  is a number. \<open>jsonDecode\<close> gives the three fields of a cache file, the policy being a
  pointer that may be \<open>nil\<close>; \<open>jsonEncode\<close> writes them. \<open>now_expiry\<close> and \<open>now_store\<close> are
  what \<open>time.Now()\<close> returns at line 127 and at line 166.
\<close>

record world =
  filepathJoin :: "string \<Rightarrow> string \<Rightarrow> string"
  osOpen :: "string \<Rightarrow> error + nat"
  osCreate :: "string \<Rightarrow> error + nat"
  jsonDecode :: "nat \<Rightarrow> error + string \<times> int \<times> Policy option"
  jsonEncode :: "nat \<Rightarrow> string \<times> int \<times> Policy \<Rightarrow> error option"
  now_expiry :: int
  now_store :: int
  LookupTXT :: "string \<Rightarrow> error + string list"
  readDNSRecord :: "string \<Rightarrow> error + string"
  httpGet :: "string \<Rightarrow> error + response"
  readPolicy :: "string \<Rightarrow> error + Policy"

definition IsNotExist :: "error \<Rightarrow> bool" where
  "IsNotExist err = (case err of FSError notExist \<Rightarrow> notExist | _ \<Rightarrow> False)"

definition HasPrefix :: "string \<Rightarrow> string \<Rightarrow> bool" where
  "HasPrefix s p = (take (length p) s = p)"

subsection \<open>The functions of the cache\<close>

definition downloadPolicy :: "world \<Rightarrow> string \<Rightarrow> error + Policy" where
  "downloadPolicy w domain =
     (case httpGet w (''https://mta-sts.'' @ domain @ ''/.well-known/mta-sts.txt'') of
        Inl err \<Rightarrow> Inl err
      | Inr resp \<Rightarrow>
          if StatusCode resp \<noteq> 200 then Inl (Errorf (''mtasts: HTTP '' @ Status resp))
          else if \<not> HasPrefix (ContentType resp) ''text/plain''
          then Inl (Errorf ''mtasts: unexpected content type'')
          else readPolicy w (Body resp))"

definition store :: "world \<Rightarrow> string \<Rightarrow> string \<Rightarrow> string \<Rightarrow> int \<Rightarrow> Policy \<Rightarrow> error option" where
  "store w location domain ident fetchTime p =
     (case osCreate w (filepathJoin w location domain) of
        Inl err \<Rightarrow> Some err
      | Inr f \<Rightarrow> jsonEncode w f (ident, fetchTime, p))"

definition load :: "world \<Rightarrow> string \<Rightarrow> string \<Rightarrow> error + string \<times> int \<times> Policy option" where
  "load w location domain =
     (case osOpen w (filepathJoin w location domain) of
        Inl err \<Rightarrow> Inl err
      | Inr f \<Rightarrow> (case jsonDecode w f of Inl err \<Rightarrow> Inl err | Inr data \<Rightarrow> Inr data))"

text \<open>
  What \<open>fetch\<close> returns: \<open>cacheHit\<close>, the policy (a pointer) and the error; or it panics,
  when a cache file holds no policy and \<open>cachedPolicy.MaxAge\<close> is read.
\<close>

datatype fetch_result = Returned bool "Policy option" "error option" | Panicked

text \<open>
  \<open>fetch\<close> from line 131 on, with the values of \<open>validCache\<close>, \<open>cachedId\<close> and
  \<open>cachedPolicy\<close> that the first part has set.
\<close>

definition revalidate ::
  "world \<Rightarrow> string \<Rightarrow> string \<Rightarrow> bool \<Rightarrow> string \<Rightarrow> Policy option \<Rightarrow> fetch_result" where
  "revalidate w location domain validCache cachedId cachedPolicy =
     (case LookupTXT w (''_mta-sts.'' @ domain) of
        Inl err \<Rightarrow>
          (case err of
             DNSError temporary \<Rightarrow>
               if \<not> temporary then Returned False None (Some ErrNoPolicy)
               else Returned False None (Some err)
           | _ \<Rightarrow> Returned False None (Some err))
      | Inr records \<Rightarrow>
          if length records \<noteq> 1 then
            (if validCache then Returned True cachedPolicy None
             else Returned False None (Some ErrNoPolicy))
          else
            (case readDNSRecord w (records ! 0) of
               Inl err \<Rightarrow>
                 (if validCache then Returned True cachedPolicy None
                  else Returned False None (Some ErrNoPolicy))
             | Inr dnsId \<Rightarrow>
                 if \<not> validCache \<or> dnsId \<noteq> cachedId then
                   (case downloadPolicy w domain of
                      Inl err \<Rightarrow> Returned False None (Some err)
                    | Inr policy \<Rightarrow>
                        (case store w location domain dnsId (now_store w) policy of
                           Some err \<Rightarrow> Returned False cachedPolicy None
                         | None \<Rightarrow> Returned False (Some policy) None))
                 else Returned True cachedPolicy None))"

definition fetch :: "world \<Rightarrow> string \<Rightarrow> string \<Rightarrow> fetch_result" where
  "fetch w location domain =
     (case load w location domain of
        Inl err \<Rightarrow>
          if \<not> IsNotExist err then Returned False None (Some err)
          else revalidate w location domain False [] None
      | Inr (cachedId, fetchTime, cachedPolicy) \<Rightarrow>
          (case cachedPolicy of
             None \<Rightarrow> Panicked
           | Some cp \<Rightarrow>
               revalidate w location domain
                 (\<not> fetchTime + seconds (MaxAge cp) < now_expiry w) cachedId cachedPolicy))"

chapter \<open>Notions of the specification\<close>

text \<open>
  The definitions of this chapter are not code of the program: they say what the claims
  speak of, and the properties below compare the program with them.

  Lowercasing of an ASCII letter. On strings of ASCII bytes \<open>EqualFold\<close> is equality up to
  the case of the letters \<open>A\<close> to \<open>Z\<close>, and \<open>lowerASCII\<close> is used to say so.
\<close>

definition lowerASCII :: "char \<Rightarrow> char" where
  "lowerASCII c = (if 65 \<le> byte c \<and> byte c \<le> 90 then char_of (byte c + 32) else c)"

text \<open>
  \<open>strings.ToLower\<close> on ASCII strings: what \<open>ToLower\<close> of the outside world is in the
  concrete runs.
\<close>

definition asciiToLower :: "string \<Rightarrow> string" where
  "asciiToLower s = map lowerASCII s"

text \<open>
  The check results of one message, processed one after the other on the same \<open>dd\<close>,
  whatever \<open>checkResult\<close> returns for each: a recipient that is refused does not end the
  session.
\<close>

definition checkResults :: "Dispatcher \<Rightarrow> dispatcherDelivery \<Rightarrow> CheckResult list \<Rightarrow> dispatcherDelivery" where
  "checkResults d dd crs = foldl (\<lambda>dd cr. snd (checkResult d dd cr)) dd crs"

text \<open>
  The order of the rules in the words of the specification: "exact lowercased address,
  then lowercased domain, then default block". \<open>domainOf\<close> is what follows the first
  \<open>@\<close> of an address, and is empty when there is none.
\<close>

definition domainOf :: "string \<Rightarrow> string" where
  "domainOf addr = tl (dropWhile (\<lambda>c. c \<noteq> CHR ''@'') addr)"

definition resolve :: "(string \<Rightarrow> string) \<Rightarrow> (string \<rightharpoonup> 'b) \<Rightarrow> 'b \<Rightarrow> string \<Rightarrow> 'b" where
  "resolve lower rules dflt addr =
     (case rules (lower addr) of
        Some b \<Rightarrow> b
      | None \<Rightarrow> (case rules (lower (domainOf addr)) of Some b \<Rightarrow> b | None \<Rightarrow> dflt))"

text \<open>
  The deliveries that a log shows to have been created for the target \<open>t\<close>: the results
  of the calls of \<open>t.Start\<close> that succeeded, in their order.
\<close>

fun startedBy :: "target \<Rightarrow> event \<Rightarrow> delivery list" where
  "startedBy t (TargetStart t' from (Inr dl)) = (if t' = t then [dl] else [])"
| "startedBy t e = []"

definition created :: "event list \<Rightarrow> target \<Rightarrow> delivery list" where
  "created tr t = concat (map (startedBy t) tr)"

text \<open>
  The recipients of one message: the session calls \<open>AddRcpt\<close> for each of them on the same
  delivery, whether or not the one before was refused (\<open>SMTPSession.Rcpt\<close>).
\<close>

fun rcptSession ::
  "Dispatcher \<Rightarrow> extern \<Rightarrow> dispatcherDelivery \<Rightarrow> string list \<Rightarrow> event list
     \<Rightarrow> dispatcherDelivery \<times> event list" where
  "rcptSession d x dd [] tr = (dd, tr)"
| "rcptSession d x dd (to # tos) tr =
     (case AddRcpt d x dd to tr of (err, dd', tr') \<Rightarrow> rcptSession d x dd' tos tr')"

text \<open>
  The invariant of \<open>dd.deliveries\<close>: the deliveries created for a target are exactly the
  one stored for it, and every recipient was forwarded to a stored delivery.
\<close>

definition memo :: "dispatcherDelivery \<Rightarrow> event list \<Rightarrow> bool" where
  "memo dd tr \<longleftrightarrow>
     (\<forall>t. created tr t = (case deliveries dd t of None \<Rightarrow> [] | Some dl \<Rightarrow> [dl])) \<and>
     (\<forall>dl to r. DeliveryAddRcpt dl to r \<in> set tr \<longrightarrow> dl \<in> ran (deliveries dd))"

chapter \<open>Concrete inputs\<close>

text \<open>
  A configuration and an outside world on which the theorems are run. The dispatcher has
  no rule for a sender, and its default source block sends every recipient to the
  targets 1 and 2. The check state of group \<open>g\<close> is \<open>100 + g\<close> and the delivery of target
  \<open>t\<close> is \<open>200 + t\<close>. Every check passes with the result \<open>quiet\<close>; the delivery of target
  2 fails to commit, and the delivery of target 1 fails to abort. The logger of the
  dispatcher has an output; \<open>ex_unset_log\<close> is the same dispatcher with the logger that
  \<open>NewDispatcher\<close> leaves, whose \<open>Out\<close> is \<open>nil\<close>.
\<close>

definition quiet :: CheckResult where
  "quiet = \<lparr>RejectErr = None, cr_Quarantine = False, ScoreAdjust = 0, AuthResult = [], Header = []\<rparr>"

definition ex_rcpt :: rcptBlock where
  "ex_rcpt = \<lparr>rcpt_checks = 3, rcpt_rejectErr = None, targets = [1, 2]\<rparr>"

definition ex_source :: sourceBlock where
  "ex_source = \<lparr>src_checks = 2, src_rejectErr = None, perRcpt = Map.empty, defaultRcpt = Ptr 1 ex_rcpt\<rparr>"

definition ex_dispatcher :: Dispatcher where
  "ex_dispatcher = \<lparr>globalChecks = 1, perSource = Map.empty, defaultSource = ex_source,
     rejectScore = Some 10, quarantineScore = Some 5, hostname = ''mx.example.org'',
     Log = \<lparr>Out = Output 1, Name = ''dispatcher''\<rparr>\<rparr>"

definition ex_unset_log :: Dispatcher where
  "ex_unset_log = ex_dispatcher\<lparr>Log := \<lparr>Out = nilFunc, Name = []\<rparr>\<rparr>"

definition ex_extern :: extern where
  "ex_extern = \<lparr>ToLower = asciiToLower,
     newMessage = (\<lambda>tr g. Inr (100 + g)),
     check = (\<lambda>tr st sg. quiet),
     targetStart = (\<lambda>tr t from. Inr (200 + t)),
     deliveryAddRcpt = (\<lambda>tr dl to. None),
     deliveryCommit = (\<lambda>tr dl. if dl = 202 then Some (ExtError 7) else None),
     deliveryAbort = (\<lambda>tr dl. if dl = 201 then Some (ExtError 8) else None)\<rparr>"

definition ex_meta :: MsgMetadata where
  "ex_meta = \<lparr>ID = ''0f'', Quarantine = False\<rparr>"

text \<open>
  A delivery with three targets opened, a check result that rejects and carries every
  other kind of result as well, and a sequence of check results.
\<close>

definition ex_delivery :: dispatcherDelivery where
  "ex_delivery = (newDelivery ex_meta)\<lparr>deliveries := [1 \<mapsto> 201, 2 \<mapsto> 202, 3 \<mapsto> 203]\<rparr>"

definition ex_rejecting :: CheckResult where
  "ex_rejecting = quiet\<lparr>RejectErr := Some (ExtError 1), cr_Quarantine := True, ScoreAdjust := 20,
     AuthResult := [''spf=fail''], Header := [(''X-Spam'', ''yes'')]\<rparr>"

definition ex_results :: "CheckResult list" where
  "ex_results = [quiet\<lparr>cr_Quarantine := True\<rparr>, ex_rejecting, quiet\<lparr>ScoreAdjust := 3\<rparr>]"

text \<open>
  A dispatcher with a rule for one sender, which rejects, and a rule for one sender
  domain, whose block has a rule for one recipient domain, which rejects.
\<close>

definition ex_reject :: error where
  "ex_reject = SMTPError 550 (5, 7, 1) ''Sender rejected''"

definition ex_no_user :: error where
  "ex_no_user = SMTPError 550 (5, 1, 1) ''No such user''"

definition ex_blocked :: sourceBlock where
  "ex_blocked = \<lparr>src_checks = 4, src_rejectErr = Some ex_reject, perRcpt = Map.empty,
     defaultRcpt = nil\<rparr>"

definition ex_closed :: rcptBlock where
  "ex_closed = \<lparr>rcpt_checks = 5, rcpt_rejectErr = Some ex_no_user, targets = []\<rparr>"

definition ex_good :: sourceBlock where
  "ex_good = \<lparr>src_checks = 6, src_rejectErr = None,
     perRcpt = [''closed.example'' \<mapsto> Ptr 2 ex_closed], defaultRcpt = Ptr 1 ex_rcpt\<rparr>"

definition ex_router :: Dispatcher where
  "ex_router = \<lparr>globalChecks = 1,
     perSource = [''spam@bad.example'' \<mapsto> ex_blocked, ''good.example'' \<mapsto> ex_good],
     defaultSource = ex_source, rejectScore = None, quarantineScore = None,
     hostname = ''mx.example.org'', Log = \<lparr>Out = Output 1, Name = ''dispatcher''\<rparr>\<rparr>"

definition ex_ready :: dispatcherDelivery where
  "ex_ready = (newDelivery ex_meta)\<lparr>sourceBlock := ex_good\<rparr>"

text \<open>
  A message from \<open>a@x\<close> to \<open>b@y\<close> and then to \<open>c@y\<close>, on \<open>ex_dispatcher\<close>: the deliveries and
  the logs after \<open>Start\<close>, after the first recipient and after the second.
\<close>

definition ex_started :: dispatcherDelivery where
  "ex_started = (newDelivery ex_meta)\<lparr>globalChecksState := Some 101, sourceChecksState := Some 102,
     sourceAddr := ''a@x'', sourceBlock := ex_source\<rparr>"

definition ex_log0 :: "event list" where
  "ex_log0 = [NewMessage 1 (Inr 101), Check 101 Connection, Check 101 (Sender ''a@x''),
     NewMessage 2 (Inr 102), Check 102 Connection, Check 102 (Sender ''a@x'')]"

definition ex_one :: dispatcherDelivery where
  "ex_one = ex_started\<lparr>rcptChecksState := [1 \<mapsto> 103], deliveries := [1 \<mapsto> 201, 2 \<mapsto> 202]\<rparr>"

definition ex_log1 :: "event list" where
  "ex_log1 = ex_log0 @ [NewMessage 3 (Inr 103), Check 103 Connection, Check 103 (Sender ''a@x''),
     Check 103 (Rcpt ''b@y''), TargetStart 1 ''a@x'' (Inr 201), DeliveryAddRcpt 201 ''b@y'' None,
     TargetStart 2 ''a@x'' (Inr 202), DeliveryAddRcpt 202 ''b@y'' None]"

definition ex_log2 :: "event list" where
  "ex_log2 = ex_log1 @ [Check 103 (Rcpt ''c@y''), DeliveryAddRcpt 201 ''c@y'' None,
     DeliveryAddRcpt 202 ''c@y'' None]"

text \<open>
  Three more worlds: one whose checks reject every sender, one where the checks of
  the source block reject the connection, and one where the check state of the source
  block cannot be created.
\<close>

definition ex_strict :: extern where
  "ex_strict = ex_extern\<lparr>check :=
     (\<lambda>tr st sg. case sg of Sender a \<Rightarrow> quiet\<lparr>RejectErr := Some ex_reject\<rparr> | _ \<Rightarrow> quiet)\<rparr>"

definition ex_strict_source :: extern where
  "ex_strict_source = ex_extern\<lparr>check :=
     (\<lambda>tr st sg. if st = 102 then quiet\<lparr>RejectErr := Some ex_reject\<rparr> else quiet)\<rparr>"

definition ex_no_source_state :: extern where
  "ex_no_source_state = ex_extern\<lparr>newMessage :=
     (\<lambda>tr g. if g = 2 then Inl (ExtError 3) else Inr (100 + g))\<rparr>"

text \<open>
  A world in which the cache directory cannot be written: there is no cache file, the TXT
  record carries the id 20230101 and the policy host serves a policy. In the second
  world a cache file holds an older policy, fetched under the id 20220101.
\<close>

definition ex_policy :: Policy where
  "ex_policy = \<lparr>Mode = enforce, MaxAge = 604800, MX = [''*.example.org'']\<rparr>"

definition ex_old_policy :: Policy where
  "ex_old_policy = \<lparr>Mode = testing, MaxAge = 86400, MX = [''mx.example.org'']\<rparr>"

definition ex_world :: world where
  "ex_world = \<lparr>filepathJoin = (\<lambda>dir name. dir @ ''/'' @ name),
     osOpen = (\<lambda>path. Inl (FSError True)),
     osCreate = (\<lambda>path. Inl (FSError False)),
     jsonDecode = (\<lambda>f. Inr (''20220101'', 0, Some ex_old_policy)),
     jsonEncode = (\<lambda>f data. None),
     now_expiry = 1000000000, now_store = 2000000000,
     LookupTXT = (\<lambda>name. Inr [''v=STSv1; id=20230101;'']),
     readDNSRecord = (\<lambda>record. Inr ''20230101''),
     httpGet = (\<lambda>url. Inr \<lparr>StatusCode = 200, Status = ''200 OK'',
       ContentType = ''text/plain; charset=utf-8'', Body = ''version: STSv1''\<rparr>),
     readPolicy = (\<lambda>body. Inr ex_policy)\<rparr>"

definition ex_world_stale :: world where
  "ex_world_stale = ex_world\<lparr>osOpen := (\<lambda>path. Inr 3)\<rparr>"

chapter \<open>Properties\<close>

section \<open>The address matcher\<close>

subsection \<open>What \<open>Split\<close> returns\<close>

lemma Split_none: "sep \<notin> set s \<Longrightarrow> Split s sep = [s]"
  by (subst Split.simps) simp

lemma Split_cut: "sep \<notin> set m \<Longrightarrow> Split (m @ sep # d) sep = m # Split d sep"
proof -
  assume m: "sep \<notin> set m"
  then have tw: "takeWhile (\<lambda>c. c \<noteq> sep) (m @ sep # d) = m"
    by (induction m) auto
  from m have dw: "dropWhile (\<lambda>c. c \<noteq> sep) (m @ sep # d) = sep # d"
    by (induction m) auto
  show ?thesis
    by (subst Split.simps) (simp add: tw dw)
qed

lemma length_Split: "length (Split s sep) = Suc (count_list s sep)"
proof (induction s sep rule: Split.induct)
  case (1 s sep)
  show ?case
  proof (cases "sep \<in> set s")
    case False
    then show ?thesis by (simp add: Split_none)
  next
    case True
    let ?m = "takeWhile (\<lambda>c. c \<noteq> sep) s"
    let ?r = "dropWhile (\<lambda>c. c \<noteq> sep) s"
    from True have "?r \<noteq> []" by simp
    moreover have "hd ?r = sep" using True hd_dropWhile [of "\<lambda>c. c \<noteq> sep" s] by auto
    ultimately have r: "?r = sep # tl ?r" by (cases ?r) auto
    have s: "s = ?m @ sep # tl ?r" using r takeWhile_dropWhile_id [of "\<lambda>c. c \<noteq> sep" s] by metis
    have m: "sep \<notin> set ?m" by (auto dest: set_takeWhileD)
    have "count_list s sep = count_list (?m @ sep # tl ?r) sep" using s by simp
    also have "\<dots> = Suc (count_list (tl ?r) sep)" using m by (simp add: count_list_0_iff)
    finally have c: "count_list s sep = Suc (count_list (tl ?r) sep)" .
    have "Split s sep = ?m # Split (tl ?r) sep"
      using True by (subst Split.simps) simp
    with 1 [OF True] c show ?thesis by simp
  qed
qed

subsection \<open>\<open>EqualFold\<close> on ASCII strings\<close>

lemma byte_inj: "byte c = byte d \<longleftrightarrow> c = d"
  by (simp add: byte_def)

lemma byte_lowerASCII:
  "byte (lowerASCII c) = (if 65 \<le> byte c \<and> byte c \<le> 90 then byte c + 32 else byte c)"
  by (simp add: lowerASCII_def byte_def)

lemma lowerASCII_eq_iff:
  "lowerASCII c = lowerASCII d \<longleftrightarrow>
     c = d \<or> (65 \<le> min (byte c) (byte d) \<and> min (byte c) (byte d) \<le> 90 \<and>
       max (byte c) (byte d) = min (byte c) (byte d) + 32)"
proof -
  have "lowerASCII c = lowerASCII d \<longleftrightarrow> byte (lowerASCII c) = byte (lowerASCII d)"
    by (simp add: byte_inj)
  also have "\<dots> \<longleftrightarrow> byte c = byte d \<or> (65 \<le> min (byte c) (byte d) \<and> min (byte c) (byte d) \<le> 90 \<and>
       max (byte c) (byte d) = min (byte c) (byte d) + 32)"
    unfolding byte_lowerASCII by (auto simp: min_def max_def)
  finally show ?thesis by (simp add: byte_inj)
qed

lemma nextRune_ascii: "byte c < 128 \<Longrightarrow> nextRune (c # cs) = (byte c, cs)"
  by (simp add: nextRune_def RuneSelf_def)

lemma EqualFold_ascii:
  "\<forall>c\<in>set s. byte c < 128 \<Longrightarrow> \<forall>c\<in>set t. byte c < 128 \<Longrightarrow>
   EqualFold s t = (map lowerASCII s = map lowerASCII t)"
proof (induction s arbitrary: t)
  case Nil
  then show ?case by (subst EqualFold.simps) auto
next
  case (Cons c cs)
  show ?case
  proof (cases t)
    case Nil
    then show ?thesis by (subst EqualFold.simps) auto
  next
    case (Cons d ds)
    from Cons.prems have c: "byte c < 128" and cs: "\<forall>c\<in>set cs. byte c < 128" by auto
    from Cons.prems(2) Cons have d: "byte d < 128" and ds: "\<forall>c\<in>set ds. byte c < 128" by auto
    have IH: "EqualFold cs ds = (map lowerASCII cs = map lowerASCII ds)"
      by (rule Cons.IH [OF cs ds])
    have m: "max (byte c) (byte d) < 128" using c d by simp
    have "EqualFold (c # cs) (d # ds) =
      ((byte d = byte c \<or> (65 \<le> min (byte c) (byte d) \<and> min (byte c) (byte d) \<le> 90 \<and>
       max (byte c) (byte d) = min (byte c) (byte d) + 32)) \<and> EqualFold cs ds)"
      using m by (subst EqualFold.simps) (auto simp: nextRune_ascii [OF c] nextRune_ascii [OF d] Let_def RuneSelf_def)
    then show ?thesis
      unfolding Cons IH by (auto simp: lowerASCII_eq_iff byte_inj)
  qed
qed

lemma EqualFold_postmaster_ascii:
  "\<forall>c\<in>set a. byte c < 128 \<Longrightarrow> EqualFold a ''postmaster'' = (map lowerASCII a = ''postmaster'')"
proof -
  assume a: "\<forall>c\<in>set a. byte c < 128"
  have t: "\<forall>c\<in>set ''postmaster''. byte c < 128" by (simp add: byte_def)
  have "map lowerASCII ''postmaster'' = ''postmaster''" by (simp add: lowerASCII_def byte_def)
  with EqualFold_ascii [OF a t] show ?thesis by simp
qed

subsection \<open>The orbit walk ends\<close>

text \<open>
  Every orbit that \<open>SimpleFold\<close> walks closes after at most three steps, so the fuel of
  \<open>foldWalk\<close> in \<open>EqualFold\<close> is never used up.
\<close>

lemma SimpleFold_upper: "65 \<le> r \<Longrightarrow> r \<le> 90 \<Longrightarrow> SimpleFold r = r + 32"
  by (simp add: SimpleFold_def)

lemma SimpleFold_lower:
  "97 \<le> r \<Longrightarrow> r \<le> 122 \<Longrightarrow> SimpleFold r = (if r = 107 then 8490 else if r = 115 then 383 else r - 32)"
  by (simp add: SimpleFold_def)

lemma SimpleFold_kelvin: "SimpleFold 8490 = 75"
  by (simp add: SimpleFold_def)

lemma SimpleFold_long_s: "SimpleFold 383 = 83"
  by (simp add: SimpleFold_def)

lemma SimpleFold_other:
  "\<not> (65 \<le> r \<and> r \<le> 90) \<Longrightarrow> \<not> (97 \<le> r \<and> r \<le> 122) \<Longrightarrow> r \<noteq> 8490 \<Longrightarrow> r \<noteq> 383
   \<Longrightarrow> SimpleFold r = r"
proof -
  assume a: "\<not> (65 \<le> r \<and> r \<le> 90)" "\<not> (97 \<le> r \<and> r \<le> 122)" "r \<noteq> 8490" "r \<noteq> 383"
  from a(2) have "r \<noteq> 107" "r \<noteq> 115" by auto
  with a show ?thesis unfolding SimpleFold_def by auto
qed

lemma SimpleFold_orbit:
  "SimpleFold sr = sr \<or> SimpleFold (SimpleFold sr) = sr
     \<or> SimpleFold (SimpleFold (SimpleFold sr)) = sr"
proof -
  consider (upper) "65 \<le> sr \<and> sr \<le> 90" | (lower) "97 \<le> sr \<and> sr \<le> 122"
    | (kelvin) "sr = 8490" | (long_s) "sr = 383"
    | (other) "\<not> (65 \<le> sr \<and> sr \<le> 90) \<and> \<not> (97 \<le> sr \<and> sr \<le> 122) \<and> sr \<noteq> 8490 \<and> sr \<noteq> 383"
    by blast
  then show ?thesis
  proof cases
    case upper
    then have 1: "SimpleFold sr = sr + 32" by (simp add: SimpleFold_upper)
    have 2: "SimpleFold (sr + 32) = (if sr = 75 then 8490 else if sr = 83 then 383 else sr)"
      using upper by (simp add: SimpleFold_lower)
    show ?thesis
      unfolding 1 2 using upper by (simp add: SimpleFold_kelvin SimpleFold_long_s)
  next
    case lower
    then have 1: "SimpleFold sr = (if sr = 107 then 8490 else if sr = 115 then 383 else sr - 32)"
      by (simp add: SimpleFold_lower)
    have 2: "SimpleFold (sr - 32) = sr"
    proof -
      from lower have "65 \<le> sr - 32" "sr - 32 \<le> 90" "sr - 32 + 32 = sr" by auto
      then show ?thesis using SimpleFold_upper [of "sr - 32"] by simp
    qed
    have 3: "SimpleFold (75::nat) = 107" "SimpleFold (83::nat) = 115"
      by (simp_all add: SimpleFold_upper)
    show ?thesis
      unfolding 1 using 2 3 by (simp add: SimpleFold_kelvin SimpleFold_long_s)
  next
    case kelvin
    have "SimpleFold (75::nat) = 107" by (simp add: SimpleFold_upper)
    moreover have "SimpleFold (107::nat) = 8490" by (simp add: SimpleFold_lower)
    ultimately show ?thesis using kelvin by (simp add: SimpleFold_kelvin)
  next
    case long_s
    have "SimpleFold (83::nat) = 115" by (simp add: SimpleFold_upper)
    moreover have "SimpleFold (115::nat) = 383" by (simp add: SimpleFold_lower)
    ultimately show ?thesis using long_s by (simp add: SimpleFold_long_s)
  next
    case other
    then show ?thesis by (simp add: SimpleFold_other)
  qed
qed

lemma foldWalk_total: "\<exists>r. foldWalk 3 sr tr (SimpleFold sr) = Some r"
proof -
  have 3: "foldWalk 3 sr tr r = (if r \<noteq> sr \<and> r < tr then foldWalk 2 sr tr (SimpleFold r) else Some r)" for r
    by (simp add: numeral_3_eq_3 numeral_2_eq_2)
  have 2: "foldWalk 2 sr tr r = (if r \<noteq> sr \<and> r < tr then foldWalk 1 sr tr (SimpleFold r) else Some r)" for r
    by (simp add: numeral_2_eq_2)
  have 1: "foldWalk 1 sr tr r = (if r \<noteq> sr \<and> r < tr then foldWalk 0 sr tr (SimpleFold r) else Some r)" for r
    by simp
  from SimpleFold_orbit [of sr] show ?thesis
    unfolding 3 2 1 by auto
qed

text \<open>
  Beyond ASCII, the long s (U+017F, the bytes C5 BF) folds to \<open>s\<close>, so this spelling of
  postmaster is accepted too.
\<close>

lemma splitAddress_long_s:
  "splitAddress (''postma'' @ [CHR 0xC5, CHR 0xBF] @ ''ter'')
     = Inr (''postma'' @ [CHR 0xC5, CHR 0xBF] @ ''ter'', [])"
  by code_simp

subsection \<open>Claim C2: the results of \<open>splitAddress\<close>\<close>

text \<open>
  C2, as the code has it. An address \<open>m@d\<close> with exactly one \<open>@\<close> and non-empty
  \<open>m\<close> and \<open>d\<close> gives \<open>(m, d)\<close>, both as they were written: \<open>splitAddress\<close> changes
  no letter case. With exactly one \<open>@\<close> and an empty mailbox or domain the address is
  malformed. An address without \<open>@\<close> is returned as it is, with the empty domain, when
  \<open>EqualFold\<close> equates it with \<open>postmaster\<close>, and is malformed otherwise. An address with
  two or more \<open>@\<close> is malformed.
\<close>

theorem splitAddress_cases:
  "(CHR ''@'' \<notin> set m \<and> CHR ''@'' \<notin> set d \<and> m \<noteq> [] \<and> d \<noteq> []
      \<longrightarrow> splitAddress (m @ CHR ''@'' # d) = Inr (m, d)) \<and>
   (CHR ''@'' \<notin> set m \<and> CHR ''@'' \<notin> set d \<and> (m = [] \<or> d = [])
      \<longrightarrow> splitAddress (m @ CHR ''@'' # d) = Inl (Errorf ''malformed address'')) \<and>
   (CHR ''@'' \<notin> set a \<and> EqualFold a ''postmaster''
      \<longrightarrow> splitAddress a = Inr (a, [])) \<and>
   (CHR ''@'' \<notin> set a \<and> \<not> EqualFold a ''postmaster''
      \<longrightarrow> splitAddress a = Inl (Errorf ''malformed address'')) \<and>
   (2 \<le> count_list b CHR ''@''
      \<longrightarrow> splitAddress b = Inl (Errorf ''malformed address''))"
proof -
  have two: "Split (m @ CHR ''@'' # d) CHR ''@'' = [m, d]"
    if "CHR ''@'' \<notin> set m" "CHR ''@'' \<notin> set d"
    using that by (simp add: Split_cut Split_none)
  have one: "Split a CHR ''@'' = [a]" if "CHR ''@'' \<notin> set a"
    using that by (simp add: Split_none)
  have many: "length (Split b CHR ''@'') \<noteq> 1 \<and> length (Split b CHR ''@'') \<noteq> 2"
    if "2 \<le> count_list b CHR ''@''"
    using that by (simp add: length_Split)
  show ?thesis
    using two one many by (auto simp: splitAddress_def Let_def)
qed

text \<open>The five cases of C2 at concrete addresses.\<close>

theorem splitAddress_cases_witness:
  "splitAddress ''alice@example.org'' = Inr (''alice'', ''example.org'') \<and>
   splitAddress ''@example.org'' = Inl (Errorf ''malformed address'') \<and>
   splitAddress ''PostMaster'' = Inr (''PostMaster'', []) \<and>
   splitAddress ''alice'' = Inl (Errorf ''malformed address'') \<and>
   splitAddress ''a@b@c'' = Inl (Errorf ''malformed address'')"
proof -
  have pm: "EqualFold ''PostMaster'' ''postmaster''" by code_simp
  have al: "\<not> EqualFold ''alice'' ''postmaster''" by code_simp
  show ?thesis
    using splitAddress_cases [of "''alice''" "''example.org''" "''PostMaster''" "''a@b@c''"]
      splitAddress_cases [of "[]" "''example.org''" "''alice''" "''a@b@c''"] pm al
    by simp
qed

text \<open>
  C2 as it was stated asks for the lowercased pair. \<open>splitAddress\<close> returns the parts
  with their capitals; its callers lowercase the domain themselves before the lookup.
\<close>

theorem splitAddress_lowercased_counterexample:
  "splitAddress ''Alice@Example.ORG'' = Inr (''Alice'', ''Example.ORG'') \<and>
   splitAddress ''Alice@Example.ORG'' \<noteq> Inr (''alice'', ''example.org'')"
  by code_simp

section \<open>Running the concrete dispatcher\<close>

lemmas ex_defs = ex_dispatcher_def ex_extern_def ex_meta_def ex_source_def ex_rcpt_def quiet_def

lemmas run_defs = Start_def startGlobal_def startSource_def matchSource_def runCheck_def
  checkResult_def deferred_def newDelivery_def scoreReached_def int32_def Add_def
  AddRcpt_def matchRcpt_def addRcptChecked_def Printf_def deliveryLogger_def


lemma Itoa_7: "Itoa 7 = ''7''" by code_simp

lemma ex_opened: "opened ex_delivery [1, 2, 3] = [201, 202, 203]"
  by (simp add: opened_def ex_delivery_def map_filter_def)

lemma ex_dom: "set [1, 2, 3] = dom (deliveries ex_delivery)"
  by (auto simp: ex_delivery_def)

section \<open>Check results\<close>

text \<open>
  C10. When a check result carries a \<open>RejectErr\<close>, \<open>checkResult\<close> returns that error and
  leaves \<open>dd\<close> as it was: the running score, the Quarantine flag, the list of
  authentication results and the extra header fields are all unchanged.
\<close>

theorem checkResult_RejectErr:
  assumes "RejectErr cr = Some e"
  shows "fst (checkResult d dd cr) = Some e \<and>
     snd (checkResult d dd cr) = dd \<and>
     checkScore (snd (checkResult d dd cr)) = checkScore dd \<and>
     Quarantine (msgMeta (snd (checkResult d dd cr))) = Quarantine (msgMeta dd) \<and>
     authRes (snd (checkResult d dd cr)) = authRes dd \<and>
     header (snd (checkResult d dd cr)) = header dd"
proof -
  from assms have "checkResult d dd cr = (Some e, dd)"
    by (simp add: checkResult_def)
  then show ?thesis by simp
qed

text \<open>C10 on a check result that rejects and carries a score, a flag, a result and a field.\<close>

theorem checkResult_RejectErr_witness:
  "RejectErr ex_rejecting = Some (ExtError 1) \<and> ScoreAdjust ex_rejecting = 20 \<and>
   cr_Quarantine ex_rejecting \<and>
   fst (checkResult ex_dispatcher (newDelivery ex_meta) ex_rejecting) = Some (ExtError 1) \<and>
   snd (checkResult ex_dispatcher (newDelivery ex_meta) ex_rejecting) = newDelivery ex_meta \<and>
   checkScore (snd (checkResult ex_dispatcher (newDelivery ex_meta) ex_rejecting)) = 0 \<and>
   \<not> Quarantine (msgMeta (snd (checkResult ex_dispatcher (newDelivery ex_meta) ex_rejecting))) \<and>
   authRes (snd (checkResult ex_dispatcher (newDelivery ex_meta) ex_rejecting)) = [] \<and>
   header (snd (checkResult ex_dispatcher (newDelivery ex_meta) ex_rejecting)) = []"
proof -
  have h: "RejectErr ex_rejecting = Some (ExtError 1)"
    and r: "ScoreAdjust ex_rejecting = 20" "cr_Quarantine ex_rejecting"
    by (simp_all add: ex_rejecting_def quiet_def)
  have z: "checkScore (newDelivery ex_meta) = 0" "\<not> Quarantine (msgMeta (newDelivery ex_meta))"
    "authRes (newDelivery ex_meta) = []" "header (newDelivery ex_meta) = []"
    by (simp_all add: newDelivery_def ex_meta_def)
  from checkResult_RejectErr [OF h, of ex_dispatcher "newDelivery ex_meta"] h r z
  show ?thesis by simp
qed

lemma checkResult_Quarantine:
  "Quarantine (msgMeta dd) \<Longrightarrow> Quarantine (msgMeta (snd (checkResult d dd cr)))"
  by (simp add: checkResult_def Let_def split: option.split)

lemma checkResults_Quarantine:
  "Quarantine (msgMeta dd) \<Longrightarrow> Quarantine (msgMeta (checkResults d dd crs))"
  unfolding checkResults_def
  by (induction crs arbitrary: dd) (simp_all add: checkResult_Quarantine)

lemma checkResults_append:
  "checkResults d dd (crs @ crs') = checkResults d (checkResults d dd crs) crs'"
  by (simp add: checkResults_def)

text \<open>
  C4. The Quarantine flag is monotone along every sequence of check results: if it is set
  after the first \<open>i\<close> results, it is set after the first \<open>j\<close> results, for every
  \<open>j\<close> from \<open>i\<close> on. No step takes it from true to false.
\<close>

theorem Quarantine_monotone:
  "i \<le> j \<Longrightarrow> Quarantine (msgMeta (checkResults d dd (take i crs)))
     \<Longrightarrow> Quarantine (msgMeta (checkResults d dd (take j crs)))"
proof -
  assume ij: "i \<le> j" and q: "Quarantine (msgMeta (checkResults d dd (take i crs)))"
  have "take j crs = take i crs @ take (j - i) (drop i crs)"
    using ij by (metis le_add_diff_inverse take_add)
  then show ?thesis
    using q by (simp add: checkResults_append checkResults_Quarantine)
qed

text \<open>C4 on three check results, of which the first sets the flag and the second rejects.\<close>

theorem Quarantine_monotone_witness:
  "(1::nat) \<le> 3 \<and>
   Quarantine (msgMeta (checkResults ex_dispatcher (newDelivery ex_meta) (take 1 ex_results))) \<and>
   Quarantine (msgMeta (checkResults ex_dispatcher (newDelivery ex_meta) (take 3 ex_results)))"
proof -
  have h: "Quarantine (msgMeta (checkResults ex_dispatcher (newDelivery ex_meta) (take 1 ex_results)))"
    by (simp add: checkResults_def ex_results_def run_defs ex_defs)
  have le: "(1::nat) \<le> 3" by simp
  from Quarantine_monotone [OF le h] h show ?thesis by simp
qed


text \<open>
  What \<open>checkResult\<close> does when \<open>Printf\<close> panics: at line 318 nothing has been written
  yet; at line 332 the score has been added and the flag is unset.
\<close>

lemma checkResult_panics:
  "(RejectErr cr = None \<and> cr_Quarantine cr \<and> \<not> Printf (deliveryLogger (Log d) (msgMeta dd))
      \<longrightarrow> checkResult d dd cr = (Some Panic, dd)) \<and>
   (RejectErr cr = None \<and> \<not> cr_Quarantine cr \<and> \<not> Quarantine (msgMeta dd) \<and>
    \<not> scoreReached (rejectScore d) (checkScore dd + ScoreAdjust cr) \<and>
    scoreReached (quarantineScore d) (checkScore dd + ScoreAdjust cr) \<and>
    \<not> Printf (deliveryLogger (Log d) (msgMeta dd))
      \<longrightarrow> checkResult d dd cr
            = (Some Panic, dd\<lparr>checkScore := checkScore dd + ScoreAdjust cr\<rparr>))"
  by (simp add: checkResult_def Let_def Printf_def deliveryLogger_def)


lemma checkResult_unset_log:
  "checkResult ex_unset_log (newDelivery ex_meta) (quiet\<lparr>cr_Quarantine := True\<rparr>)
     = (Some Panic, newDelivery ex_meta) \<and>
   \<not> Quarantine (msgMeta (newDelivery ex_meta))"
  by (simp add: checkResult_def Printf_def deliveryLogger_def ex_unset_log_def ex_dispatcher_def
      quiet_def newDelivery_def ex_meta_def)




section \<open>Commit and Abort\<close>

lemma commitLoop_log:
  "commitLoop x dls tr = (r, tr') \<Longrightarrow>
     (r = None \<longrightarrow> tr' = tr @ map (\<lambda>dl. DeliveryCommit dl None) dls) \<and>
     (\<forall>e. r = Some e \<longrightarrow>
        (\<exists>n<length dls.
           tr' = tr @ map (\<lambda>dl. DeliveryCommit dl None) (take n dls)
                    @ [DeliveryCommit (dls ! n) (Some e)] \<and>
           deliveryCommit x (tr @ map (\<lambda>dl. DeliveryCommit dl None) (take n dls)) (dls ! n)
             = Some e))"
proof (induction dls arbitrary: tr)
  case Nil
  then show ?case by simp
next
  case (Cons dl dls)
  show ?case
  proof (cases "deliveryCommit x tr dl")
    case (Some e)
    with Cons.prems have "r = Some e" "tr' = tr @ [DeliveryCommit dl (Some e)]" by auto
    with Some show ?thesis by (auto intro!: exI [of _ 0])
  next
    case None
    with Cons.prems have "commitLoop x dls (tr @ [DeliveryCommit dl None]) = (r, tr')" by simp
    from Cons.IH [OF this] have
      a: "r = None \<longrightarrow> tr' = (tr @ [DeliveryCommit dl None]) @ map (\<lambda>dl. DeliveryCommit dl None) dls"
      and b: "\<forall>e. r = Some e \<longrightarrow>
        (\<exists>n<length dls.
           tr' = (tr @ [DeliveryCommit dl None]) @ map (\<lambda>dl. DeliveryCommit dl None) (take n dls)
                    @ [DeliveryCommit (dls ! n) (Some e)] \<and>
           deliveryCommit x ((tr @ [DeliveryCommit dl None]) @ map (\<lambda>dl. DeliveryCommit dl None) (take n dls)) (dls ! n)
             = Some e)" by auto
    have "\<exists>n<length (dl # dls).
           tr' = tr @ map (\<lambda>dl. DeliveryCommit dl None) (take n (dl # dls))
                    @ [DeliveryCommit ((dl # dls) ! n) (Some e)] \<and>
           deliveryCommit x (tr @ map (\<lambda>dl. DeliveryCommit dl None) (take n (dl # dls))) ((dl # dls) ! n)
             = Some e" if "r = Some e" for e
    proof -
      from b that obtain n where n: "n < length dls"
        "tr' = (tr @ [DeliveryCommit dl None]) @ map (\<lambda>dl. DeliveryCommit dl None) (take n dls)
                    @ [DeliveryCommit (dls ! n) (Some e)]"
        "deliveryCommit x ((tr @ [DeliveryCommit dl None]) @ map (\<lambda>dl. DeliveryCommit dl None) (take n dls)) (dls ! n)
             = Some e" by blast
      then show ?thesis by (intro exI [of _ "Suc n"]) simp
    qed
    with a show ?thesis by simp
  qed
qed

lemma opened_ran:
  "distinct order \<Longrightarrow> set order = dom (deliveries dd) \<Longrightarrow>
     set (opened dd order) = ran (deliveries dd) \<and> length (opened dd order) = card (dom (deliveries dd))"
proof -
  assume d: "distinct order" and s: "set order = dom (deliveries dd)"
  have 1: "set (opened dd order) = ran (deliveries dd)"
  proof
    show "set (opened dd order) \<subseteq> ran (deliveries dd)"
      by (auto simp: opened_def map_filter_def ran_def)
    show "ran (deliveries dd) \<subseteq> set (opened dd order)"
    proof
      fix dl assume "dl \<in> ran (deliveries dd)"
      then obtain k where k: "deliveries dd k = Some dl" by (auto simp: ran_def)
      then have "k \<in> set order" using s by auto
      with k show "dl \<in> set (opened dd order)"
        by (force simp: opened_def map_filter_def image_iff)
    qed
  qed
  have "filter (\<lambda>k. deliveries dd k \<noteq> None) order = order"
    using s by (auto simp: filter_id_conv)
  then have "length (opened dd order) = length order"
    by (simp add: opened_def map_filter_def)
  also have "\<dots> = card (set order)" using d by (simp add: distinct_card)
  finally show ?thesis using 1 s by simp
qed

text \<open>
  C7. \<open>Commit\<close> visits the opened deliveries in the order of the iteration. When it
  returns \<open>nil\<close>, it has called \<open>Commit\<close> once on each of them, and each call succeeded.
  When it returns an error, that error is what the \<open>n\<close>-th delivery answered, the
  deliveries before it were committed with success, and no delivery after it was called.
\<close>

theorem Commit_first_failure:
  assumes "distinct order" and "set order = dom (deliveries dd)"
    and "Commit x dd order tr = (r, tr')"
  shows "set (opened dd order) = ran (deliveries dd) \<and>
     length (opened dd order) = card (dom (deliveries dd)) \<and>
     (r = None \<longrightarrow> tr' = tr @ map (\<lambda>dl. DeliveryCommit dl None) (opened dd order)) \<and>
     (\<forall>e. r = Some e \<longrightarrow>
        (\<exists>n<length (opened dd order).
           tr' = tr @ map (\<lambda>dl. DeliveryCommit dl None) (take n (opened dd order))
                    @ [DeliveryCommit (opened dd order ! n) (Some e)] \<and>
           deliveryCommit x (tr @ map (\<lambda>dl. DeliveryCommit dl None) (take n (opened dd order)))
               (opened dd order ! n) = Some e))"
  using opened_ran [OF assms(1,2)] commitLoop_log [OF assms(3) [unfolded Commit_def]]
  by simp

lemma ex_Commit:
  "Commit ex_extern ex_delivery [1, 2, 3] []
     = (Some (ExtError 7), [DeliveryCommit 201 None, DeliveryCommit 202 (Some (ExtError 7))])"
  unfolding Commit_def ex_opened by (simp add: ex_extern_def)

text \<open>C7 on three deliveries, of which the second fails to commit.\<close>

theorem Commit_first_failure_witness:
  "distinct [1, 2, 3 :: nat] \<and> set [1, 2, 3] = dom (deliveries ex_delivery) \<and>
   Commit ex_extern ex_delivery [1, 2, 3] []
     = (Some (ExtError 7), [DeliveryCommit 201 None, DeliveryCommit 202 (Some (ExtError 7))]) \<and>
   set (opened ex_delivery [1, 2, 3]) = ran (deliveries ex_delivery) \<and>
   length (opened ex_delivery [1, 2, 3]) = card (dom (deliveries ex_delivery)) \<and>
   (\<exists>n<length (opened ex_delivery [1, 2, 3]).
      [DeliveryCommit 201 None, DeliveryCommit 202 (Some (ExtError 7))]
        = [] @ map (\<lambda>dl. DeliveryCommit dl None) (take n (opened ex_delivery [1, 2, 3]))
             @ [DeliveryCommit (opened ex_delivery [1, 2, 3] ! n) (Some (ExtError 7))] \<and>
      deliveryCommit ex_extern
          ([] @ map (\<lambda>dl. DeliveryCommit dl None) (take n (opened ex_delivery [1, 2, 3])))
          (opened ex_delivery [1, 2, 3] ! n) = Some (ExtError 7))"
proof -
  have d: "distinct [1, 2, 3 :: nat]" by simp
  from Commit_first_failure [OF d ex_dom ex_Commit] d ex_dom ex_Commit
  show ?thesis by blast
qed

lemma abortLoop_log:
  "abortLoop x dls lastErr tr = (r, tr') \<Longrightarrow>
     \<exists>rs. length rs = length dls \<and>
       tr' = tr @ map2 DeliveryAbort dls rs \<and>
       r = last (lastErr # filter (\<lambda>r. r \<noteq> None) rs)"
proof (induction dls arbitrary: lastErr tr)
  case Nil
  then show ?case by simp
next
  case (Cons dl dls)
  show ?case
  proof (cases "deliveryAbort x tr dl")
    case None
    with Cons.prems have "abortLoop x dls lastErr (tr @ [DeliveryAbort dl None]) = (r, tr')"
      by simp
    from Cons.IH [OF this] obtain rs where rs: "length rs = length dls"
      "tr' = (tr @ [DeliveryAbort dl None]) @ map2 DeliveryAbort dls rs"
      "r = last (lastErr # filter (\<lambda>r. r \<noteq> None) rs)" by blast
    then show ?thesis by (intro exI [of _ "None # rs"]) simp
  next
    case (Some e)
    with Cons.prems have
      "abortLoop x dls (Some e) (tr @ [DeliveryAbort dl (Some e)]) = (r, tr')" by simp
    from Cons.IH [OF this] obtain rs where rs: "length rs = length dls"
      "tr' = (tr @ [DeliveryAbort dl (Some e)]) @ map2 DeliveryAbort dls rs"
      "r = last (Some e # filter (\<lambda>r. r \<noteq> None) rs)" by blast
    then show ?thesis by (intro exI [of _ "Some e # rs"]) simp
  qed
qed

text \<open>
  C8. \<open>Abort\<close> calls \<open>Abort\<close> once on every opened delivery, in the order of the iteration
  and whatever each call answers (\<open>rs\<close> are the answers), and returns the last error among
  the answers, or \<open>nil\<close> when there is none.
\<close>

theorem Abort_all:
  assumes "distinct order" and "set order = dom (deliveries dd)"
    and "Abort x dd order tr = (r, tr')"
  shows "set (opened dd order) = ran (deliveries dd) \<and>
     length (opened dd order) = card (dom (deliveries dd)) \<and>
     (\<exists>rs. length rs = length (opened dd order) \<and>
        tr' = tr @ map2 DeliveryAbort (opened dd order) rs \<and>
        r = last (None # filter (\<lambda>r. r \<noteq> None) rs))"
  using opened_ran [OF assms(1,2)] abortLoop_log [OF assms(3) [unfolded Abort_def]]
  by simp

lemma ex_Abort:
  "Abort ex_extern ex_delivery [1, 2, 3] []
     = (Some (ExtError 8),
        [DeliveryAbort 201 (Some (ExtError 8)), DeliveryAbort 202 None, DeliveryAbort 203 None])"
  unfolding Abort_def ex_opened by (simp add: ex_extern_def)

text \<open>C8 on three deliveries, of which the first fails to abort.\<close>

theorem Abort_all_witness:
  "distinct [1, 2, 3 :: nat] \<and> set [1, 2, 3] = dom (deliveries ex_delivery) \<and>
   Abort ex_extern ex_delivery [1, 2, 3] []
     = (Some (ExtError 8),
        [DeliveryAbort 201 (Some (ExtError 8)), DeliveryAbort 202 None, DeliveryAbort 203 None]) \<and>
   set (opened ex_delivery [1, 2, 3]) = ran (deliveries ex_delivery) \<and>
   length (opened ex_delivery [1, 2, 3]) = card (dom (deliveries ex_delivery)) \<and>
   (\<exists>rs. length rs = length (opened ex_delivery [1, 2, 3]) \<and>
      [DeliveryAbort 201 (Some (ExtError 8)), DeliveryAbort 202 None, DeliveryAbort 203 None]
        = [] @ map2 DeliveryAbort (opened ex_delivery [1, 2, 3]) rs \<and>
      Some (ExtError 8) = last (None # filter (\<lambda>r. r \<noteq> None) rs))"
proof -
  have d: "distinct [1, 2, 3 :: nat]" by simp
  from Abort_all [OF d ex_dom ex_Abort] d ex_dom ex_Abort
  show ?thesis by blast
qed

section \<open>The block of an address\<close>

lemma Split_two:
  assumes "length (Split s sep) = 2"
  shows "Split s sep = [takeWhile (\<lambda>c. c \<noteq> sep) s, tl (dropWhile (\<lambda>c. c \<noteq> sep) s)]"
proof -
  let ?rest = "tl (dropWhile (\<lambda>c. c \<noteq> sep) s)"
  from assms have "count_list s sep = 1" by (simp add: length_Split)
  then have mem: "sep \<in> set s" by (metis count_list_0_iff zero_neq_one)
  then have eq: "Split s sep = takeWhile (\<lambda>c. c \<noteq> sep) s # Split ?rest sep"
    by (subst Split.simps) simp
  with assms have "length (Split ?rest sep) = 1" by simp
  then have "count_list ?rest sep = 0" by (simp add: length_Split)
  then have "sep \<notin> set ?rest" by (simp add: count_list_0_iff)
  then have "Split ?rest sep = [?rest]" by (rule Split_none)
  with eq show ?thesis by simp
qed

lemma Split_one:
  assumes "length (Split s sep) = 1"
  shows "sep \<notin> set s"
  using assms by (simp add: length_Split count_list_0_iff)

lemma splitAddress_domain: "splitAddress a = Inr (m, dmn) \<Longrightarrow> dmn = domainOf a"
proof -
  assume r: "splitAddress a = Inr (m, dmn)"
  consider (one) "length (Split a CHR ''@'') = 1" | (two) "length (Split a CHR ''@'') = 2"
    | (more) "length (Split a CHR ''@'') \<noteq> 1 \<and> length (Split a CHR ''@'') \<noteq> 2" by blast
  then show ?thesis
  proof cases
    case one
    then have "CHR ''@'' \<notin> set a" by (rule Split_one)
    then have "\<forall>c\<in>set a. c \<noteq> CHR ''@''" by auto
    then have "dropWhile (\<lambda>c. c \<noteq> CHR ''@'') a = []" by (simp only: dropWhile_eq_Nil_conv)
    then have "domainOf a = []" by (simp only: domainOf_def list.sel)
    moreover from r one have "dmn = []"
      by (simp add: splitAddress_def Let_def split: if_splits)
    ultimately show ?thesis by simp
  next
    case two
    from Split_two [OF two] have "Split a CHR ''@'' ! 1 = domainOf a"
      by (simp add: domainOf_def)
    with r two show ?thesis
      by (simp add: splitAddress_def Let_def split: if_splits)
  next
    case more
    with r show ?thesis by (simp add: splitAddress_def Let_def)
  qed
qed

lemma matchSource_resolve:
  "perSource d (ToLower x a) \<noteq> None \<or> splitAddress a = Inr (m, dmn) \<Longrightarrow>
     matchSource d x a = Inr (resolve (ToLower x) (perSource d) (defaultSource d) a)"
proof (cases "perSource d (ToLower x a)")
  case (Some b)
  then show ?thesis by (simp add: matchSource_def resolve_def)
next
  case None
  moreover assume "perSource d (ToLower x a) \<noteq> None \<or> splitAddress a = Inr (m, dmn)"
  ultimately have s: "splitAddress a = Inr (m, dmn)" by simp
  then have "dmn = domainOf a" by (rule splitAddress_domain)
  with s None show ?thesis
    by (simp add: matchSource_def resolve_def split: option.splits)
qed

lemma matchSource_malformed:
  "perSource d (ToLower x a) = None \<Longrightarrow> splitAddress a = Inl err \<Longrightarrow>
     matchSource d x a = Inl (SMTPError 501 (5, 1, 3) (''Invalid sender address: '' @ Error err))"
  by (simp add: matchSource_def)

lemma matchRcpt_resolve:
  "perRcpt sb (ToLower x a) \<noteq> None \<or> splitAddress a = Inr (m, dmn) \<Longrightarrow>
     matchRcpt x sb a = Inr (resolve (ToLower x) (perRcpt sb) (defaultRcpt sb) a)"
proof (cases "perRcpt sb (ToLower x a)")
  case (Some b)
  then show ?thesis by (simp add: matchRcpt_def resolve_def)
next
  case None
  moreover assume "perRcpt sb (ToLower x a) \<noteq> None \<or> splitAddress a = Inr (m, dmn)"
  ultimately have s: "splitAddress a = Inr (m, dmn)" by simp
  then have "dmn = domainOf a" by (rule splitAddress_domain)
  with s None show ?thesis
    by (simp add: matchRcpt_def resolve_def split: option.splits)
qed

lemma matchRcpt_malformed:
  "perRcpt sb (ToLower x a) = None \<Longrightarrow> splitAddress a = Inl err \<Longrightarrow>
     matchRcpt x sb a = Inl (SMTPError 501 (5, 1, 3) (''Invalid recipient address: '' @ Error err))"
  by (simp add: matchRcpt_def)

lemma checkResult_frame:
  "checkResult d dd cr = (err, dd') \<Longrightarrow>
     sourceBlock dd' = sourceBlock dd \<and> deliveries dd' = deliveries dd \<and>
     rcptChecksState dd' = rcptChecksState dd \<and> sourceAddr dd' = sourceAddr dd \<and>
     globalChecksState dd' = globalChecksState dd \<and> sourceChecksState dd' = sourceChecksState dd"
  by (auto simp: checkResult_def Let_def split: option.splits if_splits)

lemma runCheck_frame:
  "runCheck d x st sg dd tr = (err, dd', tr') \<Longrightarrow>
     tr' = tr @ [Check st sg] \<and>
     sourceBlock dd' = sourceBlock dd \<and> deliveries dd' = deliveries dd \<and>
     rcptChecksState dd' = rcptChecksState dd \<and> sourceAddr dd' = sourceAddr dd \<and>
     globalChecksState dd' = globalChecksState dd \<and> sourceChecksState dd' = sourceChecksState dd"
  by (auto simp: runCheck_def split: prod.splits dest: checkResult_frame)

lemma startSource_block:
  "startSource d x a gs sb dd tr = (Inr dd', tr') \<Longrightarrow> sourceBlock dd' = sb"
  by (auto simp: startSource_def Let_def split: option.splits sum.splits prod.splits
      dest!: runCheck_frame)

lemma startSource_reject:
  "src_rejectErr sb = Some e \<Longrightarrow> startSource d x a gs sb dd tr = (Inl e, tr)"
  by (simp add: startSource_def deferred_def)

lemma startSource_opens:
  "src_rejectErr sb = None \<Longrightarrow>
     \<exists>r more. snd (startSource d x a gs sb dd tr) = tr @ NewMessage (src_checks sb) r # more"
  by (auto simp: startSource_def Let_def deferred_def split: option.splits sum.splits prod.splits
      dest!: runCheck_frame)

text \<open>
  C1, as the code has it. Take a sender that has a rule of its own or that
  \<open>splitAddress\<close> accepts, and let \<open>Start\<close> have passed the global checks, with the log
  \<open>tr1\<close> then. The source block is the one that \<open>resolve\<close> gives. If it carries a reject
  error, \<open>Start\<close> returns that error and the log is still \<open>tr1\<close>: no check state is opened
  for the block, and no delivery. If it carries none, the next call opens the check state
  of that block, and the delivery that \<open>Start\<close> returns holds that block. A sender without
  a rule of its own that \<open>splitAddress\<close> refuses is answered with 501 5.1.3 and no block is
  chosen. The same holds for a recipient in \<open>AddRcpt\<close>, within the source block of the
  delivery: a reject error of the recipient block is returned with \<open>dd\<close> and the log
  unchanged, and a recipient without a rule of its own that \<open>splitAddress\<close> refuses is
  answered with 501 5.1.3.
\<close>

theorem block_resolution:
  "(startGlobal d x meta a tr = (Inr (gs, dd0), tr1) \<and>
      (perSource d (ToLower x a) \<noteq> None \<or> splitAddress a = Inr (m, dmn)) \<longrightarrow>
        (\<forall>e. src_rejectErr (resolve (ToLower x) (perSource d) (defaultSource d) a) = Some e \<longrightarrow>
           Start d x meta a tr = (Inl e, tr1)) \<and>
        (src_rejectErr (resolve (ToLower x) (perSource d) (defaultSource d) a) = None \<longrightarrow>
           (\<exists>r more. snd (Start d x meta a tr)
              = tr1 @ NewMessage (src_checks (resolve (ToLower x) (perSource d) (defaultSource d) a)) r
                  # more) \<and>
           (\<forall>dd' tr'. Start d x meta a tr = (Inr dd', tr') \<longrightarrow>
              sourceBlock dd' = resolve (ToLower x) (perSource d) (defaultSource d) a))) \<and>
   (startGlobal d x meta a tr = (Inr (gs, dd0), tr1) \<and>
      perSource d (ToLower x a) = None \<and> splitAddress a = Inl err \<longrightarrow>
        Start d x meta a tr
          = (Inl (SMTPError 501 (5, 1, 3) (''Invalid sender address: '' @ Error err)), tr1)) \<and>
   (perRcpt (sourceBlock dd) (ToLower x to) \<noteq> None \<or> splitAddress to = Inr (m', dmn') \<longrightarrow>
      matchRcpt x (sourceBlock dd) to
        = Inr (resolve (ToLower x) (perRcpt (sourceBlock dd)) (defaultRcpt (sourceBlock dd)) to) \<and>
      (\<forall>p rb e. resolve (ToLower x) (perRcpt (sourceBlock dd)) (defaultRcpt (sourceBlock dd)) to
                   = Ptr p rb \<and> rcpt_rejectErr rb = Some e \<longrightarrow>
         AddRcpt d x dd to tr2 = (Some e, dd, tr2))) \<and>
   (perRcpt (sourceBlock dd) (ToLower x to) = None \<and> splitAddress to = Inl err' \<longrightarrow>
      AddRcpt d x dd to tr2
        = (Some (SMTPError 501 (5, 1, 3) (''Invalid recipient address: '' @ Error err')), dd, tr2))"
proof (intro conjI impI allI)
  fix e
  assume g: "startGlobal d x meta a tr = (Inr (gs, dd0), tr1) \<and>
      (perSource d (ToLower x a) \<noteq> None \<or> splitAddress a = Inr (m, dmn))"
    and e: "src_rejectErr (resolve (ToLower x) (perSource d) (defaultSource d) a) = Some e"
  from g have "matchSource d x a = Inr (resolve (ToLower x) (perSource d) (defaultSource d) a)"
    using matchSource_resolve [of d x a m dmn] by blast
  with g e show "Start d x meta a tr = (Inl e, tr1)"
    by (simp add: Start_def startSource_reject)
next
  assume g: "startGlobal d x meta a tr = (Inr (gs, dd0), tr1) \<and>
      (perSource d (ToLower x a) \<noteq> None \<or> splitAddress a = Inr (m, dmn))"
    and e: "src_rejectErr (resolve (ToLower x) (perSource d) (defaultSource d) a) = None"
  from g have m: "matchSource d x a = Inr (resolve (ToLower x) (perSource d) (defaultSource d) a)"
    using matchSource_resolve [of d x a m dmn] by blast
  with g have "Start d x meta a tr
      = startSource d x a gs (resolve (ToLower x) (perSource d) (defaultSource d) a) dd0 tr1"
    by (simp add: Start_def)
  with startSource_opens [OF e, of d x a gs dd0 tr1]
  show "\<exists>r more. snd (Start d x meta a tr)
      = tr1 @ NewMessage (src_checks (resolve (ToLower x) (perSource d) (defaultSource d) a)) r # more"
    by simp
next
  fix dd' tr'
  assume g: "startGlobal d x meta a tr = (Inr (gs, dd0), tr1) \<and>
      (perSource d (ToLower x a) \<noteq> None \<or> splitAddress a = Inr (m, dmn))"
    and s: "Start d x meta a tr = (Inr dd', tr')"
  from g have m: "matchSource d x a = Inr (resolve (ToLower x) (perSource d) (defaultSource d) a)"
    using matchSource_resolve [of d x a m dmn] by blast
  with g s have "startSource d x a gs (resolve (ToLower x) (perSource d) (defaultSource d) a) dd0 tr1
      = (Inr dd', tr')"
    by (simp add: Start_def)
  then show "sourceBlock dd' = resolve (ToLower x) (perSource d) (defaultSource d) a"
    by (rule startSource_block)
next
  assume "startGlobal d x meta a tr = (Inr (gs, dd0), tr1) \<and>
      perSource d (ToLower x a) = None \<and> splitAddress a = Inl err"
  then show "Start d x meta a tr
      = (Inl (SMTPError 501 (5, 1, 3) (''Invalid sender address: '' @ Error err)), tr1)"
    by (simp add: Start_def matchSource_malformed deferred_def)
next
  assume "perRcpt (sourceBlock dd) (ToLower x to) \<noteq> None \<or> splitAddress to = Inr (m', dmn')"
  then show "matchRcpt x (sourceBlock dd) to
        = Inr (resolve (ToLower x) (perRcpt (sourceBlock dd)) (defaultRcpt (sourceBlock dd)) to)"
    by (rule matchRcpt_resolve)
next
  fix p rb e
  assume a: "perRcpt (sourceBlock dd) (ToLower x to) \<noteq> None \<or> splitAddress to = Inr (m', dmn')"
    and r: "resolve (ToLower x) (perRcpt (sourceBlock dd)) (defaultRcpt (sourceBlock dd)) to
                   = Ptr p rb \<and> rcpt_rejectErr rb = Some e"
  from matchRcpt_resolve [OF a] r show "AddRcpt d x dd to tr2 = (Some e, dd, tr2)"
    by (simp add: AddRcpt_def)
next
  assume "perRcpt (sourceBlock dd) (ToLower x to) = None \<and> splitAddress to = Inl err'"
  then show "AddRcpt d x dd to tr2
        = (Some (SMTPError 501 (5, 1, 3) (''Invalid recipient address: '' @ Error err')), dd, tr2)"
    by (simp add: AddRcpt_def matchRcpt_malformed)
qed

lemma ex_lower:
  "asciiToLower ''Spam@Bad.Example'' = ''spam@bad.example''"
  "asciiToLower ''bob@Good.Example'' = ''bob@good.example''"
  "asciiToLower ''Good.Example'' = ''good.example''"
  "asciiToLower ''x@Closed.Example'' = ''x@closed.example''"
  "asciiToLower ''Closed.Example'' = ''closed.example''"
  "asciiToLower ''nobody'' = ''nobody''"
  "asciiToLower [] = []"
  by code_simp+

lemma ex_split:
  "splitAddress ''bob@Good.Example'' = Inr (''bob'', ''Good.Example'')"
  "splitAddress ''x@Closed.Example'' = Inr (''x'', ''Closed.Example'')"
  "splitAddress ''nobody'' = Inl (Errorf ''malformed address'')"
  "splitAddress [] = Inl (Errorf ''malformed address'')"
  by code_simp+

lemma ex_domain:
  "domainOf ''bob@Good.Example'' = ''Good.Example''"
  "domainOf ''x@Closed.Example'' = ''Closed.Example''"
  "domainOf ''Spam@Bad.Example'' = ''Bad.Example''"
  by (simp_all add: domainOf_def)

lemma ex_startGlobal:
  "startGlobal ex_router ex_extern ex_meta a []
     = (Inr (101, (newDelivery ex_meta)\<lparr>globalChecksState := Some 101\<rparr>),
        [NewMessage 1 (Inr 101), Check 101 Connection, Check 101 (Sender a)])"
  by (simp add: startGlobal_def runCheck_def checkResult_def scoreReached_def Add_def
      ex_router_def ex_extern_def quiet_def newDelivery_def)

text \<open>
  C1 at a sender with a rule of its own that rejects, a sender matched by its domain, the
  empty sender, a recipient matched by its domain whose block rejects, and a recipient
  without \<open>@\<close>.
\<close>

theorem block_resolution_witness:
  "Start ex_router ex_extern ex_meta ''Spam@Bad.Example'' []
     = (Inl ex_reject, [NewMessage 1 (Inr 101), Check 101 Connection,
          Check 101 (Sender ''Spam@Bad.Example'')]) \<and>
   (\<exists>r more. snd (Start ex_router ex_extern ex_meta ''bob@Good.Example'' [])
     = [NewMessage 1 (Inr 101), Check 101 Connection, Check 101 (Sender ''bob@Good.Example'')]
         @ NewMessage 6 r # more) \<and>
   Start ex_router ex_extern ex_meta [] []
     = (Inl (SMTPError 501 (5, 1, 3) ''Invalid sender address: malformed address''),
        [NewMessage 1 (Inr 101), Check 101 Connection, Check 101 (Sender [])]) \<and>
   matchRcpt ex_extern (sourceBlock ex_ready) ''x@Closed.Example'' = Inr (Ptr 2 ex_closed) \<and>
   AddRcpt ex_router ex_extern ex_ready ''x@Closed.Example'' [] = (Some ex_no_user, ex_ready, []) \<and>
   AddRcpt ex_router ex_extern ex_ready ''nobody'' []
     = (Some (SMTPError 501 (5, 1, 3) ''Invalid recipient address: malformed address''),
        ex_ready, [])"
proof -
  have lower: "ToLower ex_extern = asciiToLower" by (simp add: ex_extern_def)
  have r1: "resolve asciiToLower (perSource ex_router) (defaultSource ex_router) ''Spam@Bad.Example''
      = ex_blocked"
    by (simp add: resolve_def ex_router_def ex_lower)
  have r2: "resolve asciiToLower (perSource ex_router) (defaultSource ex_router) ''bob@Good.Example''
      = ex_good"
    by (simp add: resolve_def ex_router_def ex_lower ex_domain)
  have r3: "resolve asciiToLower (perRcpt (sourceBlock ex_ready)) (defaultRcpt (sourceBlock ex_ready))
      ''x@Closed.Example'' = Ptr 2 ex_closed"
    by (simp add: resolve_def ex_ready_def ex_good_def ex_lower ex_domain)
  have p1: "perSource ex_router (asciiToLower ''Spam@Bad.Example'') \<noteq> None"
    by (simp add: ex_router_def ex_lower)
  have p3: "perSource ex_router (asciiToLower []) = None"
    by (simp add: ex_router_def ex_lower)
  have p5: "perRcpt (sourceBlock ex_ready) (asciiToLower ''nobody'') = None"
    by (simp add: ex_ready_def ex_good_def ex_lower)
  have e1: "src_rejectErr ex_blocked = Some ex_reject" by (simp add: ex_blocked_def)
  have e2: "src_rejectErr ex_good = None" "src_checks ex_good = 6" by (simp_all add: ex_good_def)
  have e3: "rcpt_rejectErr ex_closed = Some ex_no_user" by (simp add: ex_closed_def)
  have A: "Start ex_router ex_extern ex_meta ''Spam@Bad.Example'' []
     = (Inl ex_reject, [NewMessage 1 (Inr 101), Check 101 Connection,
          Check 101 (Sender ''Spam@Bad.Example'')])"
    using block_resolution [of ex_router ex_extern ex_meta "''Spam@Bad.Example''" "[]" 101
        "(newDelivery ex_meta)\<lparr>globalChecksState := Some 101\<rparr>"
        "[NewMessage 1 (Inr 101), Check 101 Connection, Check 101 (Sender ''Spam@Bad.Example'')]"]
      ex_startGlobal [of "''Spam@Bad.Example''"] p1 r1 e1
    by (simp add: lower)
  have B: "\<exists>r more. snd (Start ex_router ex_extern ex_meta ''bob@Good.Example'' [])
     = [NewMessage 1 (Inr 101), Check 101 Connection, Check 101 (Sender ''bob@Good.Example'')]
         @ NewMessage 6 r # more"
    using block_resolution [of ex_router ex_extern ex_meta "''bob@Good.Example''" "[]" 101
        "(newDelivery ex_meta)\<lparr>globalChecksState := Some 101\<rparr>"
        "[NewMessage 1 (Inr 101), Check 101 Connection, Check 101 (Sender ''bob@Good.Example'')]"
        "''bob''" "''Good.Example''"]
      ex_startGlobal [of "''bob@Good.Example''"] ex_split(1) r2 e2
    by (simp add: lower)
  have C: "Start ex_router ex_extern ex_meta [] []
     = (Inl (SMTPError 501 (5, 1, 3) ''Invalid sender address: malformed address''),
        [NewMessage 1 (Inr 101), Check 101 Connection, Check 101 (Sender [])])"
    using block_resolution [of ex_router ex_extern ex_meta "[]" "[]" 101
        "(newDelivery ex_meta)\<lparr>globalChecksState := Some 101\<rparr>"
        "[NewMessage 1 (Inr 101), Check 101 Connection, Check 101 (Sender [])]" _ _
        "Errorf ''malformed address''"]
      ex_startGlobal [of "[]"] ex_split(4) p3
    by (simp add: lower)
  have D: "matchRcpt ex_extern (sourceBlock ex_ready) ''x@Closed.Example'' = Inr (Ptr 2 ex_closed) \<and>
      AddRcpt ex_router ex_extern ex_ready ''x@Closed.Example'' [] = (Some ex_no_user, ex_ready, [])"
    using block_resolution [of ex_router ex_extern ex_meta _ _ _ _ _ _ _ _ ex_ready
        "''x@Closed.Example''" "''x''" "''Closed.Example''" "[]"]
      ex_split(2) r3 e3
    by (simp add: lower)
  have E: "AddRcpt ex_router ex_extern ex_ready ''nobody'' []
     = (Some (SMTPError 501 (5, 1, 3) ''Invalid recipient address: malformed address''),
        ex_ready, [])"
    using block_resolution [of ex_router ex_extern ex_meta _ _ _ _ _ _ _ _ ex_ready
        "''nobody''" _ _ "[]" "Errorf ''malformed address''"]
      ex_split(3) p5
    by (simp add: lower)
  from A B C D E show ?thesis by blast
qed

text \<open>
  C1 as it was stated lets every address fall back to the default block. The empty
  sender has no rule and no domain rule in \<open>ex_dispatcher\<close>, and the default source block
  rejects nothing, yet \<open>Start\<close> fails with 501; the recipient \<open>nobody\<close> has no rule and no
  domain rule either, and the default recipient block rejects nothing, yet \<open>AddRcpt\<close>
  fails with 501.
\<close>

theorem block_resolution_counterexample:
  "perSource ex_dispatcher (asciiToLower []) = None \<and>
   perSource ex_dispatcher (asciiToLower (domainOf [])) = None \<and>
   src_rejectErr (defaultSource ex_dispatcher) = None \<and>
   Start ex_dispatcher ex_extern ex_meta [] []
     = (Inl (SMTPError 501 (5, 1, 3) ''Invalid sender address: malformed address''),
        [NewMessage 1 (Inr 101), Check 101 Connection, Check 101 (Sender [])]) \<and>
   perRcpt (sourceBlock ex_ready) (asciiToLower ''nobody'') = None \<and>
   perRcpt (sourceBlock ex_ready) (asciiToLower (domainOf ''nobody'')) = None \<and>
   defaultRcpt (sourceBlock ex_ready) = Ptr 1 ex_rcpt \<and> rcpt_rejectErr ex_rcpt = None \<and>
   AddRcpt ex_router ex_extern ex_ready ''nobody'' []
     = (Some (SMTPError 501 (5, 1, 3) ''Invalid recipient address: malformed address''),
        ex_ready, [])"
  by (simp add: run_defs ex_defs ex_lower ex_split domainOf_def ex_ready_def ex_good_def)

section \<open>One delivery for each target\<close>

lemma created_append: "created (tr @ tr') t = created tr t @ created tr' t"
  by (simp add: created_def)

lemma memo_Check: "memo dd tr \<Longrightarrow> deliveries dd' = deliveries dd \<Longrightarrow> memo dd' (tr @ [Check st sg])"
  by (simp add: memo_def created_append created_def)

lemma memo_NewMessage:
  "memo dd tr \<Longrightarrow> deliveries dd' = deliveries dd \<Longrightarrow> memo dd' (tr @ [NewMessage g r])"
  by (simp add: memo_def created_append created_def)

lemma memo_failed_start: "memo dd tr \<Longrightarrow> memo dd (tr @ [TargetStart t a (Inl e)])"
  by (simp add: memo_def created_append created_def)

lemma memo_AddRcpt:
  assumes "memo dd tr" and "deliveries dd t = Some dl"
  shows "memo dd (tr @ [DeliveryAddRcpt dl to r])"
proof -
  have "created (tr @ [DeliveryAddRcpt dl to r]) t' = created tr t'" for t'
    by (simp add: created_append created_def)
  moreover have "dl \<in> ran (deliveries dd)" using assms(2) by (rule ranI)
  moreover have "\<forall>dl to r. DeliveryAddRcpt dl to r \<in> set tr \<longrightarrow> dl \<in> ran (deliveries dd)"
    using assms(1) by (simp add: memo_def)
  ultimately show ?thesis using assms(1) by (simp add: memo_def)
qed

lemma memo_start:
  assumes "memo dd tr" and "deliveries dd t = None"
  shows "memo (dd\<lparr>deliveries := (deliveries dd)(t \<mapsto> dl)\<rparr>) (tr @ [TargetStart t a (Inr dl)])"
proof -
  have "ran ((deliveries dd)(t \<mapsto> dl)) = insert dl (ran (deliveries dd))"
    using assms(2) by (rule ran_map_upd)
  with assms show ?thesis
    by (auto simp: memo_def created_append created_def)
qed

lemma runCheck_memo:
  assumes "memo dd tr" and "runCheck d x st sg dd tr = (err, dd', tr')"
  shows "memo dd' tr'"
proof -
  from runCheck_frame [OF assms(2)]
  have "tr' = tr @ [Check st sg]" and "deliveries dd' = deliveries dd" by simp_all
  with assms(1) show ?thesis by (simp add: memo_Check)
qed

lemma addRcptTargets_memo:
  "memo dd tr \<Longrightarrow> addRcptTargets x to ts dd tr = (err, dd', tr') \<Longrightarrow> memo dd' tr'"
proof (induction ts arbitrary: dd tr)
  case Nil
  then show ?case by simp
next
  case (Cons t ts)
  show ?case
  proof (cases "deliveries dd t")
    case (Some dl)
    have m: "memo dd (tr @ [DeliveryAddRcpt dl to r])" for r
      using Cons.prems(1) Some by (rule memo_AddRcpt)
    show ?thesis
    proof (cases "deliveryAddRcpt x tr dl to")
      case None
      with Some Cons.prems(2)
      have "addRcptTargets x to ts dd (tr @ [DeliveryAddRcpt dl to None]) = (err, dd', tr')"
        by simp
      with m show ?thesis by (rule Cons.IH)
    next
      case (Some e)
      with \<open>deliveries dd t = Some dl\<close> Cons.prems(2) m show ?thesis by auto
    qed
  next
    case None
    show ?thesis
    proof (cases "targetStart x tr t (sourceAddr dd)")
      case (Inl e)
      with None Cons.prems show ?thesis by (auto intro: memo_failed_start)
    next
      case (Inr dl)
      let ?tr1 = "tr @ [TargetStart t (sourceAddr dd) (Inr dl)]"
      let ?dd1 = "dd\<lparr>deliveries := (deliveries dd)(t \<mapsto> dl)\<rparr>"
      have m1: "memo ?dd1 ?tr1" using Cons.prems(1) None by (rule memo_start)
      have m2: "memo ?dd1 (?tr1 @ [DeliveryAddRcpt dl to r])" for r
        using m1 by (rule memo_AddRcpt [where t = t]) simp
      show ?thesis
      proof (cases "deliveryAddRcpt x ?tr1 dl to")
        case None
        with \<open>deliveries dd t = None\<close> Inr Cons.prems(2)
        have "addRcptTargets x to ts ?dd1 (?tr1 @ [DeliveryAddRcpt dl to None]) = (err, dd', tr')"
          by (simp add: Let_def)
        with m2 show ?thesis by (rule Cons.IH)
      next
        case (Some e)
        with \<open>deliveries dd t = None\<close> Inr Cons.prems(2) m2 [of "Some e"] show ?thesis
          by (auto simp: Let_def)
      qed
    qed
  qed
qed

lemma addRcptTargets_keeps:
  "addRcptTargets x to ts dd tr = (err, dd', tr') \<Longrightarrow> deliveries dd \<subseteq>\<^sub>m deliveries dd'"
proof (induction ts arbitrary: dd tr)
  case Nil
  then show ?case by simp
next
  case (Cons t ts)
  show ?case
  proof (cases "deliveries dd t")
    case (Some dl)
    show ?thesis
    proof (cases "deliveryAddRcpt x tr dl to")
      case None
      with Some Cons.prems
      have "addRcptTargets x to ts dd (tr @ [DeliveryAddRcpt dl to None]) = (err, dd', tr')"
        by simp
      then show ?thesis by (rule Cons.IH)
    next
      case (Some e)
      with \<open>deliveries dd t = Some dl\<close> Cons.prems show ?thesis by simp
    qed
  next
    case None
    then have le: "deliveries dd \<subseteq>\<^sub>m (deliveries dd)(t \<mapsto> dl)" for dl
      by (auto simp: map_le_def)
    show ?thesis
    proof (cases "targetStart x tr t (sourceAddr dd)")
      case (Inl e)
      with None Cons.prems show ?thesis by simp
    next
      case (Inr dl)
      let ?tr1 = "tr @ [TargetStart t (sourceAddr dd) (Inr dl)]"
      let ?dd1 = "dd\<lparr>deliveries := (deliveries dd)(t \<mapsto> dl)\<rparr>"
      show ?thesis
      proof (cases "deliveryAddRcpt x ?tr1 dl to")
        case None
        with \<open>deliveries dd t = None\<close> Inr Cons.prems
        have "addRcptTargets x to ts ?dd1 (?tr1 @ [DeliveryAddRcpt dl to None]) = (err, dd', tr')"
          by (simp add: Let_def)
        from Cons.IH [OF this] have "deliveries ?dd1 \<subseteq>\<^sub>m deliveries dd'" .
        moreover have "deliveries dd \<subseteq>\<^sub>m deliveries ?dd1"
          using le [of dl] by (simp add: fun_upd_def)
        ultimately show ?thesis by (rule map_le_trans [rotated])
      next
        case (Some e)
        with \<open>deliveries dd t = None\<close> Inr Cons.prems have "dd' = ?dd1"
          by (simp add: Let_def)
        with le [of dl] show ?thesis by (simp add: fun_upd_def)
      qed
    qed
  qed
qed

lemma addRcptChecked_memo:
  assumes "memo dd tr" and "addRcptChecked d x to rb st dd tr = (err, dd', tr')"
  shows "memo dd' tr'"
proof -
  obtain e1 dd1 tr1 where c: "runCheck d x st (Rcpt to) dd tr = (e1, dd1, tr1)"
    by (cases "runCheck d x st (Rcpt to) dd tr") auto
  have m: "memo dd1 tr1" using assms(1) c by (rule runCheck_memo)
  show ?thesis
  proof (cases e1)
    case None
    with c assms(2) have "addRcptTargets x to (targets rb) dd1 tr1 = (err, dd', tr')"
      by (simp add: addRcptChecked_def)
    with m show ?thesis by (rule addRcptTargets_memo)
  next
    case (Some e)
    with c assms(2) m show ?thesis by (simp add: addRcptChecked_def)
  qed
qed

lemma addRcptChecked_keeps:
  assumes "addRcptChecked d x to rb st dd tr = (err, dd', tr')"
  shows "deliveries dd \<subseteq>\<^sub>m deliveries dd'"
proof -
  obtain e1 dd1 tr1 where c: "runCheck d x st (Rcpt to) dd tr = (e1, dd1, tr1)"
    by (cases "runCheck d x st (Rcpt to) dd tr") auto
  have k: "deliveries dd1 = deliveries dd" using runCheck_frame [OF c] by simp
  show ?thesis
  proof (cases e1)
    case None
    with c assms have "addRcptTargets x to (targets rb) dd1 tr1 = (err, dd', tr')"
      by (simp add: addRcptChecked_def)
    from addRcptTargets_keeps [OF this] k show ?thesis by simp
  next
    case (Some e)
    with c assms k show ?thesis by (simp add: addRcptChecked_def)
  qed
qed

lemma AddRcpt_memo:
  assumes "AddRcpt d x dd to tr = (err, dd', tr')"
  shows "(memo dd tr \<longrightarrow> memo dd' tr') \<and> deliveries dd \<subseteq>\<^sub>m deliveries dd'"
proof (cases "matchRcpt x (sourceBlock dd) to")
  case (Inl e)
  with assms show ?thesis by (simp add: AddRcpt_def)
next
  case (Inr pb)
  show ?thesis
  proof (cases pb)
    case nil
    with Inr assms show ?thesis by (simp add: AddRcpt_def)
  next
    case (Ptr a rb)
    show ?thesis
    proof (cases "rcpt_rejectErr rb")
      case (Some e)
      with Inr Ptr assms show ?thesis by (simp add: AddRcpt_def)
    next
      case None
      note no_reject = this
      show ?thesis
      proof (cases "rcptChecksState dd a")
        case (Some st)
        with Inr Ptr no_reject assms
        have "addRcptChecked d x to rb st dd tr = (err, dd', tr')" by (simp add: AddRcpt_def)
        from addRcptChecked_memo [OF _ this] addRcptChecked_keeps [OF this]
        show ?thesis by blast
      next
        case None
        note no_state = this
        show ?thesis
        proof (cases "newMessage x tr (rcpt_checks rb)")
          case (Inl e)
          with Inr Ptr no_reject no_state assms
          have "dd' = dd" "tr' = tr @ [NewMessage (rcpt_checks rb) (Inl e)]"
            by (simp_all add: AddRcpt_def)
          then show ?thesis by (simp add: memo_NewMessage)
        next
          case (Inr st)
          let ?tr0 = "tr @ [NewMessage (rcpt_checks rb) (Inr st)]"
          obtain e1 dd1 tr1 where c1: "runCheck d x st Connection dd ?tr0 = (e1, dd1, tr1)"
            by (cases "runCheck d x st Connection dd ?tr0") auto
          have m1: "memo dd tr \<longrightarrow> memo dd1 tr1"
            using runCheck_memo [OF _ c1] memo_NewMessage [of dd tr dd] by blast
          have k1: "deliveries dd1 = deliveries dd" using runCheck_frame [OF c1] by simp
          show ?thesis
          proof (cases e1)
            case (Some e)
            with \<open>matchRcpt x (sourceBlock dd) to = Inr pb\<close> Ptr no_reject no_state Inr c1 assms
            have "dd' = dd1" "tr' = tr1" by (simp_all add: AddRcpt_def)
            with m1 k1 show ?thesis by simp
          next
            case None
            note pass1 = this
            obtain e2 dd2 tr2 where
              c2: "runCheck d x st (Sender (sourceAddr dd1)) dd1 tr1 = (e2, dd2, tr2)"
              by (cases "runCheck d x st (Sender (sourceAddr dd1)) dd1 tr1") auto
            have m2: "memo dd tr \<longrightarrow> memo dd2 tr2"
              using runCheck_memo [OF _ c2] m1 by blast
            have k2: "deliveries dd2 = deliveries dd" using runCheck_frame [OF c2] k1 by simp
            show ?thesis
            proof (cases e2)
              case (Some e)
              with \<open>matchRcpt x (sourceBlock dd) to = Inr pb\<close> Ptr no_reject no_state Inr c1 pass1
                c2 assms
              have "dd' = dd2" "tr' = tr2" by (simp_all add: AddRcpt_def)
              with m2 k2 show ?thesis by simp
            next
              case None
              let ?dd3 = "dd2\<lparr>rcptChecksState := (rcptChecksState dd2)(a \<mapsto> st)\<rparr>"
              from None \<open>matchRcpt x (sourceBlock dd) to = Inr pb\<close> Ptr no_reject no_state Inr c1
                pass1 c2 assms
              have c3: "addRcptChecked d x to rb st ?dd3 tr2 = (err, dd', tr')"
                by (simp add: AddRcpt_def)
              have m3: "memo dd tr \<longrightarrow> memo ?dd3 tr2" using m2 by (simp add: memo_def)
              have k3: "deliveries ?dd3 = deliveries dd" using k2 by simp
              from addRcptChecked_keeps [OF c3] k3
              have "deliveries dd \<subseteq>\<^sub>m deliveries dd'" by simp
              moreover from addRcptChecked_memo [OF _ c3] m3
              have "memo dd tr \<longrightarrow> memo dd' tr'" by blast
              ultimately show ?thesis by simp
            qed
          qed
        qed
      qed
    qed
  qed
qed

lemma rcptSession_memo:
  "rcptSession d x dd rcpts tr = (dd', tr') \<Longrightarrow>
     (memo dd tr \<longrightarrow> memo dd' tr') \<and> deliveries dd \<subseteq>\<^sub>m deliveries dd'"
proof (induction rcpts arbitrary: dd tr)
  case Nil
  then show ?case by simp
next
  case (Cons to tos)
  obtain err dd1 tr1 where a: "AddRcpt d x dd to tr = (err, dd1, tr1)"
    by (cases "AddRcpt d x dd to tr") auto
  with Cons.prems have "rcptSession d x dd1 tos tr1 = (dd', tr')" by simp
  from Cons.IH [OF this] have 1: "memo dd1 tr1 \<longrightarrow> memo dd' tr'"
    and 2: "deliveries dd1 \<subseteq>\<^sub>m deliveries dd'" by simp_all
  from AddRcpt_memo [OF a] have 3: "memo dd tr \<longrightarrow> memo dd1 tr1"
    and 4: "deliveries dd \<subseteq>\<^sub>m deliveries dd1" by simp_all
  from 4 2 have "deliveries dd \<subseteq>\<^sub>m deliveries dd'" by (rule map_le_trans)
  with 1 3 show ?case by simp
qed

lemma startGlobal_memo:
  "startGlobal d x meta a [] = (Inr (gs, dd), tr) \<Longrightarrow> memo dd tr"
proof -
  assume s: "startGlobal d x meta a [] = (Inr (gs, dd), tr)"
  have m0: "memo (newDelivery meta) []"
    by (simp add: memo_def created_def newDelivery_def)
  from s obtain r where n: "newMessage x [] (globalChecks d) = Inr r"
    by (cases "newMessage x [] (globalChecks d)") (auto simp: startGlobal_def)
  let ?tr0 = "[] @ [NewMessage (globalChecks d) (Inr r)]"
  have m0': "memo (newDelivery meta) ?tr0" using m0 by (rule memo_NewMessage) simp
  obtain e1 dd1 tr1 where c1: "runCheck d x r Connection (newDelivery meta) ?tr0 = (e1, dd1, tr1)"
    by (cases "runCheck d x r Connection (newDelivery meta) ?tr0") auto
  have m1: "memo dd1 tr1" using m0' c1 by (rule runCheck_memo)
  obtain e2 dd2 tr2 where c2: "runCheck d x r (Sender a) dd1 tr1 = (e2, dd2, tr2)"
    by (cases "runCheck d x r (Sender a) dd1 tr1") auto
  have m2: "memo dd2 tr2" using m1 c2 by (rule runCheck_memo)
  from s n c1 c2 have "dd = dd2\<lparr>globalChecksState := Some r\<rparr> \<and> tr = tr2"
    by (auto simp: startGlobal_def split: option.splits)
  with m2 show ?thesis by (simp add: memo_def)
qed

lemma startSource_memo:
  assumes "memo dd tr" and "startSource d x a gs sb dd tr = (Inr dd', tr')"
  shows "memo dd' tr'"
proof -
  from assms(2) have nr: "src_rejectErr sb = None"
    by (cases "src_rejectErr sb") (auto simp: startSource_def)
  let ?dd1 = "dd\<lparr>sourceBlock := sb\<rparr>"
  from assms(2) nr obtain ss where n: "newMessage x tr (src_checks sb) = Inr ss"
    by (cases "newMessage x tr (src_checks sb)") (auto simp: startSource_def)
  let ?tr0 = "tr @ [NewMessage (src_checks sb) (Inr ss)]"
  have m0: "memo ?dd1 ?tr0" using assms(1) by (rule memo_NewMessage) simp
  obtain e1 dd1 tr1 where c1: "runCheck d x ss Connection ?dd1 ?tr0 = (e1, dd1, tr1)"
    by (cases "runCheck d x ss Connection ?dd1 ?tr0") auto
  have m1: "memo dd1 tr1" using m0 c1 by (rule runCheck_memo)
  obtain e2 dd2 tr2 where c2: "runCheck d x ss (Sender a) dd1 tr1 = (e2, dd2, tr2)"
    by (cases "runCheck d x ss (Sender a) dd1 tr1") auto
  have m2: "memo dd2 tr2" using m1 c2 by (rule runCheck_memo)
  from assms(2) nr n c1 c2
  have "dd' = dd2\<lparr>sourceChecksState := Some ss, sourceAddr := a\<rparr> \<and> tr' = tr2"
    by (auto simp: startSource_def deferred_def split: option.splits)
  with m2 show ?thesis by (simp add: memo_def)
qed

lemma Start_memo:
  assumes "Start d x meta a [] = (Inr dd, tr)"
  shows "memo dd tr"
proof -
  obtain r tr1 where g: "startGlobal d x meta a [] = (r, tr1)"
    by (cases "startGlobal d x meta a []") auto
  with assms obtain gs dd0 where r: "r = Inr (gs, dd0)"
    by (cases r) (auto simp: Start_def)
  from g r have m: "memo dd0 tr1" by (simp add: startGlobal_memo)
  from assms g r obtain sb where "matchSource d x a = Inr sb"
    by (cases "matchSource d x a") (auto simp: Start_def)
  with assms g r have "startSource d x a gs sb dd0 tr1 = (Inr dd, tr)"
    by (simp add: Start_def)
  with m show ?thesis by (rule startSource_memo)
qed

text \<open>
  C6. After \<open>Start\<close> and any recipients, then any further recipients: the log holds at
  most one delivery created for each target \<open>t\<close>, and it is the one stored in
  \<open>dd.deliveries\<close>; what was stored after the first recipients is still stored after
  the further ones, so they reuse it; and every \<open>AddRcpt\<close> that was forwarded went to a
  stored delivery.
\<close>

theorem one_delivery_per_target:
  assumes "Start d x meta mailFrom [] = (Inr dd, tr)"
    and "rcptSession d x dd rcpts tr = (dd1, tr1)"
    and "rcptSession d x dd1 rcpts' tr1 = (dd2, tr2)"
  shows "length (created tr2 t) \<le> 1 \<and>
     created tr2 t = (case deliveries dd2 t of None \<Rightarrow> [] | Some dl \<Rightarrow> [dl]) \<and>
     deliveries dd1 \<subseteq>\<^sub>m deliveries dd2 \<and>
     (\<forall>dl to r. DeliveryAddRcpt dl to r \<in> set tr2 \<longrightarrow> dl \<in> ran (deliveries dd2))"
proof -
  have "memo dd tr" using assms(1) by (rule Start_memo)
  with rcptSession_memo [OF assms(2)] have "memo dd1 tr1" by simp
  with rcptSession_memo [OF assms(3)] have m: "memo dd2 tr2"
    and k: "deliveries dd1 \<subseteq>\<^sub>m deliveries dd2" by simp_all
  from m have c: "created tr2 t = (case deliveries dd2 t of None \<Rightarrow> [] | Some dl \<Rightarrow> [dl])"
    by (simp add: memo_def)
  then have "length (created tr2 t) \<le> 1" by (simp split: option.splits)
  with c k m show ?thesis by (simp add: memo_def)
qed

lemma ex_addr:
  "splitAddress ''a@x'' = Inr (''a'', ''x'')"
  "splitAddress ''b@y'' = Inr (''b'', ''y'')"
  "splitAddress ''c@y'' = Inr (''c'', ''y'')"
  "asciiToLower ''a@x'' = ''a@x''" "asciiToLower ''x'' = ''x''"
  "asciiToLower ''b@y'' = ''b@y''" "asciiToLower ''y'' = ''y''"
  "asciiToLower ''c@y'' = ''c@y''"
  by code_simp+

lemma ex_Start: "Start ex_dispatcher ex_extern ex_meta ''a@x'' [] = (Inr ex_started, ex_log0)"
  by (simp add: run_defs ex_defs ex_addr ex_started_def ex_log0_def)

lemma ex_session1:
  "rcptSession ex_dispatcher ex_extern ex_started [''b@y''] ex_log0 = (ex_one, ex_log1)"
  by (simp add: run_defs ex_defs ex_addr ex_started_def ex_log0_def ex_one_def ex_log1_def)

lemma ex_session2:
  "rcptSession ex_dispatcher ex_extern ex_one [''c@y''] ex_log1 = (ex_one, ex_log2)"
  by (simp add: run_defs ex_defs ex_addr ex_started_def ex_log0_def ex_one_def ex_log1_def ex_log2_def)

text \<open>C6 on that message: target 1 is started once, for \<open>b@y\<close>, and \<open>c@y\<close> goes to the same delivery.\<close>

theorem one_delivery_per_target_witness:
  "Start ex_dispatcher ex_extern ex_meta ''a@x'' [] = (Inr ex_started, ex_log0) \<and>
   rcptSession ex_dispatcher ex_extern ex_started [''b@y''] ex_log0 = (ex_one, ex_log1) \<and>
   rcptSession ex_dispatcher ex_extern ex_one [''c@y''] ex_log1 = (ex_one, ex_log2) \<and>
   length (created ex_log2 1) \<le> 1 \<and>
   created ex_log2 1 = (case deliveries ex_one 1 of None \<Rightarrow> [] | Some dl \<Rightarrow> [dl]) \<and>
   created ex_log2 1 = [201] \<and>
   deliveries ex_one \<subseteq>\<^sub>m deliveries ex_one \<and>
   DeliveryAddRcpt 202 ''c@y'' None \<in> set ex_log2 \<and> 202 \<in> ran (deliveries ex_one)"
proof -
  have c: "created ex_log2 1 = [201]"
    by (simp add: created_def ex_log2_def ex_log1_def ex_log0_def)
  have e: "DeliveryAddRcpt 202 ''c@y'' None \<in> set ex_log2"
    by (simp add: ex_log2_def)
  from one_delivery_per_target [OF ex_Start ex_session1 ex_session2, of 1] c e
    ex_Start ex_session1 ex_session2
  show ?thesis by blast
qed

section \<open>Closing the check states\<close>

lemma startSource_NewMessage_fails:
  "src_rejectErr sb = None \<Longrightarrow> newMessage x tr (src_checks sb) = Inl e \<Longrightarrow>
     startSource d x a gs sb dd tr = (Inl e, tr @ [NewMessage (src_checks sb) (Inl e), Close gs])"
  by (simp add: startSource_def deferred_def)

lemma Abort_closes_nothing:
  "Close st \<in> set (snd (Abort x dd order tr)) \<longleftrightarrow> Close st \<in> set tr"
proof -
  obtain r tr' where a: "Abort x dd order tr = (r, tr')"
    by (cases "Abort x dd order tr") auto
  from abortLoop_log [OF a [unfolded Abort_def]] obtain rs
    where "tr' = tr @ map2 DeliveryAbort (opened dd order) rs" by blast
  then have "Close st \<in> set tr' \<longleftrightarrow> Close st \<in> set tr" by auto
  with a show ?thesis by simp
qed

text \<open>
  C5 does not hold of the code. When the global \<open>CheckSender\<close> rejects, \<open>Start\<close> returns
  without closing the global check state 101; so it does when the source block carries
  a reject error; when the \<open>CheckConnection\<close> of the source block rejects, neither state 102
  nor state 101 is closed. Only when the check state of the source block cannot be
  created is the global check state closed. And \<open>Abort\<close>, after two recipients with the
  check states 101, 102 and 103 open, closes none of them.
\<close>

theorem Start_leaves_check_states_open:
  "Start ex_dispatcher ex_strict ex_meta ''a@x'' []
     = (Inl ex_reject,
        [NewMessage 1 (Inr 101), Check 101 Connection, Check 101 (Sender ''a@x'')]) \<and>
   Start ex_router ex_extern ex_meta ''Spam@Bad.Example'' []
     = (Inl ex_reject,
        [NewMessage 1 (Inr 101), Check 101 Connection, Check 101 (Sender ''Spam@Bad.Example'')]) \<and>
   Start ex_dispatcher ex_strict_source ex_meta ''a@x'' []
     = (Inl ex_reject,
        [NewMessage 1 (Inr 101), Check 101 Connection, Check 101 (Sender ''a@x''),
         NewMessage 2 (Inr 102), Check 102 Connection]) \<and>
   Start ex_dispatcher ex_no_source_state ex_meta ''a@x'' []
     = (Inl (ExtError 3),
        [NewMessage 1 (Inr 101), Check 101 Connection, Check 101 (Sender ''a@x''),
         NewMessage 2 (Inl (ExtError 3)), Close 101]) \<and>
   Abort ex_extern (ex_one\<lparr>deliveries := Map.empty\<rparr>) [] ex_log2 = (None, ex_log2) \<and>
   Close 101 \<notin> set ex_log2 \<and> Close 102 \<notin> set ex_log2 \<and> Close 103 \<notin> set ex_log2"
  by (simp add: run_defs ex_defs ex_addr ex_lower ex_strict_def ex_strict_source_def
      ex_no_source_state_def ex_router_def ex_blocked_def ex_reject_def
      Abort_def opened_def map_filter_def ex_log2_def ex_log1_def ex_log0_def)

section \<open>A download that cannot be stored\<close>

text \<open>
  Whenever the download succeeds and \<open>store\<close> fails, what is returned is \<open>cachedPolicy\<close>.
\<close>

lemma revalidate_store_fails:
  assumes "LookupTXT w (''_mta-sts.'' @ domain) = Inr [record]"
    and "readDNSRecord w record = Inr dnsId"
    and "\<not> validCache \<or> dnsId \<noteq> cachedId"
    and "downloadPolicy w domain = Inr policy"
    and "store w location domain dnsId (now_store w) policy = Some err"
  shows "revalidate w location domain validCache cachedId cachedPolicy
     = Returned False cachedPolicy None"
  using assms by (simp add: revalidate_def)

text \<open>
  C9 does not hold of the code. The policy is downloaded, and \<open>store\<close> fails because the
  cache file cannot be created. Without a cache file \<open>fetch\<close> then returns no policy and
  no error; with a cache file of another id it returns the policy of that file. In
  neither case does it return the policy that was downloaded.
\<close>

theorem fetch_returns_cached_policy:
  "downloadPolicy ex_world ''example.org'' = Inr ex_policy \<and>
   store ex_world ''/var/lib/maddy/mtasts'' ''example.org'' ''20230101'' (now_store ex_world) ex_policy
     = Some (FSError False) \<and>
   fetch ex_world ''/var/lib/maddy/mtasts'' ''example.org'' = Returned False None None \<and>
   downloadPolicy ex_world_stale ''example.org'' = Inr ex_policy \<and>
   store ex_world_stale ''/var/lib/maddy/mtasts'' ''example.org'' ''20230101''
       (now_store ex_world_stale) ex_policy
     = Some (FSError False) \<and>
   fetch ex_world_stale ''/var/lib/maddy/mtasts'' ''example.org''
     = Returned False (Some ex_old_policy) None \<and>
   ex_old_policy \<noteq> ex_policy"
  by (simp add: fetch_def load_def revalidate_def store_def downloadPolicy_def HasPrefix_def
      IsNotExist_def seconds_def ex_world_def ex_world_stale_def ex_policy_def ex_old_policy_def)

end
